theory Spec2Isabelle
  imports Main "HOL-Library.Word"
begin

section \<open>Go values used by the client (client.go)\<close>

type_synonym bytes = string

text \<open>\<^verbatim>\<open>time.Duration\<close> is a signed 64-bit count of nanoseconds; products wrap.\<close>

type_synonym Duration = "64 word"

definition Second :: Duration where
  "Second = 1000000000"

definition defaultTimeout :: Duration where
  "defaultTimeout = 30 * Second"

definition defaultMaxRetries :: int where
  "defaultMaxRetries = 3"

definition defaultRetryDelay :: Duration where
  "defaultRetryDelay = 1 * Second"

definition baseURL :: string where
  "baseURL = ''https://accounts.ana.st''"

subsection \<open>Errors\<close>

record APIError =
  Timestamp :: string
  Status :: int
  ErrorType :: string
  Message :: string
  Path :: string

text \<open>The two values \<^verbatim>\<open>ctx.Err()\<close> can return once \<^verbatim>\<open>ctx.Done()\<close> is closed.\<close>

datatype ctx_err = Canceled | DeadlineExceeded

text \<open>
  Go \<^verbatim>\<open>error\<close> values as the client builds them: \<open>ErrorString\<close> is
  \<^verbatim>\<open>fmt.Errorf\<close> without \<^verbatim>\<open>%w\<close>, \<open>WrapError p e\<close> is
  \<^verbatim>\<open>fmt.Errorf(p + "%w", e)\<close> (the cause may be nil), \<open>APIErr\<close> is a
  \<^verbatim>\<open>*APIError\<close>, and \<open>CtxErr\<close> is the error of a finished context.
\<close>

datatype goerr =
    ErrorString string
  | WrapError string "goerr option"
  | APIErr APIError
  | CtxErr ctx_err

text \<open>The type assertion \<^verbatim>\<open>err.(*APIError)\<close>.\<close>

fun asAPIError :: "goerr \<Rightarrow> APIError option" where
  "asAPIError (APIErr e) = Some e"
| "asAPIError (ErrorString s) = None"
| "asAPIError (WrapError p e) = None"
| "asAPIError (CtxErr e) = None"

definition IsPermissionDenied :: "APIError \<Rightarrow> bool" where
  "IsPermissionDenied e = (Status e = 403)"

definition IsUnauthorized :: "APIError \<Rightarrow> bool" where
  "IsUnauthorized e = (Status e = 401)"

definition IsNotFound :: "APIError \<Rightarrow> bool" where
  "IsNotFound e = (Status e = 404)"

definition IsBadRequest :: "APIError \<Rightarrow> bool" where
  "IsBadRequest e = (Status e = 400)"

text \<open>The verb \<^verbatim>\<open>%d\<close> of \<^verbatim>\<open>fmt\<close> on an \<^verbatim>\<open>int\<close>.\<close>

fun natDigits :: "nat \<Rightarrow> string" where
  "natDigits n =
     (if n < 10 then [''0123456789'' ! n]
      else natDigits (n div 10) @ [''0123456789'' ! (n mod 10)])"

definition Itoa :: "int \<Rightarrow> string" where
  "Itoa i = (if i < 0 then ''-'' @ natDigits (nat (- i)) else natDigits (nat i))"

subsection \<open>Contexts\<close>

text \<open>
  A \<^verbatim>\<open>context.Context\<close> as a chain of key/value pairs over the background
  context. \<open>tokenContextKey\<close> is the package's private key; a stored value is a string
  or something else (for which the assertion \<^verbatim>\<open>.(string)\<close> fails). When a context
  is done is decided by the environment, see \<open>Select\<close> below.
\<close>

datatype ctx_key = tokenContextKey | otherKey string

datatype ctx_val = StringVal string | OtherVal

datatype Context = Background | WithValue Context ctx_key ctx_val

fun Value :: "Context \<Rightarrow> ctx_key \<Rightarrow> ctx_val option" where
  "Value Background key = None"
| "Value (WithValue parent k v) key = (if key = k then Some v else Value parent key)"

definition WithToken :: "Context \<Rightarrow> string \<Rightarrow> Context" where
  "WithToken ctx token = WithValue ctx tokenContextKey (StringVal token)"

subsection \<open>Requests and responses of the transport\<close>

record request =
  RequestURI :: string
  Method :: string
  Body :: bytes
  ContentType :: "string option"
  Authorization :: "string option"

text \<open>\<^verbatim>\<open>fasthttp.AcquireRequest()\<close>: a reset request.\<close>

definition AcquireRequest :: request where
  "AcquireRequest =
     \<lparr>RequestURI = [], Method = ''GET'', Body = [], ContentType = None, Authorization = None\<rparr>"

record response =
  StatusCode :: int
  Body :: bytes

subsection \<open>Authenticators\<close>

text \<open>
  \<^verbatim>\<open>TokenProvider.GetToken(ctx)\<close> returns a pair (token, error). The first argument
  is the number of the attempt that makes the call, so that a provider whose answer
  changes from one call to the next is covered.
\<close>

type_synonym TokenProvider = "nat \<Rightarrow> Context \<Rightarrow> string \<times> goerr option"

text \<open>
  The four implementations of the interface \<^verbatim>\<open>Authenticator\<close> in client.go. The second
  field of \<open>DynamicTokenAuth\<close> and the field of \<open>ContextTokenAuth\<close> is the unexported
  \<^verbatim>\<open>ctx\<close>, \<open>None\<close> for nil.
\<close>

datatype Authenticator =
    BearerTokenAuth string
  | OAuthTokenAuth string
  | DynamicTokenAuth TokenProvider "Context option"
  | ContextTokenAuth "Context option"

fun AuthenticateFastHTTP :: "nat \<Rightarrow> Authenticator \<Rightarrow> request \<Rightarrow> goerr + request" where
  "AuthenticateFastHTTP n (BearerTokenAuth Token) req =
     (if Token = [] then Inl (ErrorString ''bearer token is empty'')
      else Inr (req\<lparr>Authorization := Some (''Bearer '' @ Token)\<rparr>))"
| "AuthenticateFastHTTP n (OAuthTokenAuth AccessToken) req =
     (if AccessToken = [] then Inl (ErrorString ''oauth access token is empty'')
      else Inr (req\<lparr>Authorization := Some (''Bearer '' @ AccessToken)\<rparr>))"
| "AuthenticateFastHTTP n (DynamicTokenAuth Provider dctx) req =
     (let ctx = (case dctx of None \<Rightarrow> Background | Some x \<Rightarrow> x)
      in case Provider n ctx of
           (token, Some err) \<Rightarrow> Inl (WrapError ''failed to get token: '' (Some err))
         | (token, None) \<Rightarrow>
             (if token = [] then Inl (ErrorString ''token is empty'')
              else Inr (req\<lparr>Authorization := Some (''Bearer '' @ token)\<rparr>)))"
| "AuthenticateFastHTTP n (ContextTokenAuth cctx) req =
     (case cctx of
        None \<Rightarrow> Inl (ErrorString ''no context set'')
      | Some ctx \<Rightarrow>
          (case Value ctx tokenContextKey of
             Some (StringVal token) \<Rightarrow>
               (if token = [] then Inl (ErrorString ''no token found in context'')
                else Inr (req\<lparr>Authorization := Some (''Bearer '' @ token)\<rparr>))
           | Some OtherVal \<Rightarrow> Inl (ErrorString ''no token found in context'')
           | None \<Rightarrow> Inl (ErrorString ''no token found in context'')))"

subsection \<open>The client\<close>

datatype Logger = DefaultLogger | NoOpLogger

record ClientOptions =
  Timeout :: Duration
  MaxRetries :: int
  RetryDelay :: Duration
  Logger :: "Logger option"
  MaxConnsPerHost :: int
  MaxIdleConnDuration :: Duration

record fasthttp_Client =
  ReadTimeout :: Duration
  WriteTimeout :: Duration
  MaxConnsPerHost :: int
  MaxIdleConnDuration :: Duration

record Client =
  httpClient :: fasthttp_Client
  auth :: "Authenticator option"
  options :: ClientOptions

definition NewClient :: "Authenticator option \<Rightarrow> ClientOptions option \<Rightarrow> Client" where
  "NewClient a opts =
     (let o0 = (case opts of
                  None \<Rightarrow>
                    \<lparr>Timeout = defaultTimeout, MaxRetries = defaultMaxRetries,
                     RetryDelay = defaultRetryDelay, Logger = None,
                     ClientOptions.MaxConnsPerHost = 512,
                     ClientOptions.MaxIdleConnDuration = 10 * Second\<rparr>
                | Some x \<Rightarrow> x);
          o1 = (if Timeout o0 = 0 then o0\<lparr>Timeout := defaultTimeout\<rparr> else o0);
          o2 = (if MaxRetries o1 = 0 then o1\<lparr>MaxRetries := defaultMaxRetries\<rparr> else o1);
          o3 = (if RetryDelay o2 = 0 then o2\<lparr>RetryDelay := defaultRetryDelay\<rparr> else o2);
          o4 = (if ClientOptions.MaxConnsPerHost o3 = 0
                then o3\<lparr>ClientOptions.MaxConnsPerHost := 512\<rparr> else o3);
          o5 = (if ClientOptions.MaxIdleConnDuration o4 = 0
                then o4\<lparr>ClientOptions.MaxIdleConnDuration := 10 * Second\<rparr> else o4)
      in \<lparr>httpClient =
            \<lparr>ReadTimeout = Timeout o5, WriteTimeout = Timeout o5,
             fasthttp_Client.MaxConnsPerHost = ClientOptions.MaxConnsPerHost o5,
             fasthttp_Client.MaxIdleConnDuration = ClientOptions.MaxIdleConnDuration o5\<rparr>,
          auth = a, options = o5\<rparr>)"

definition SetAuth :: "Client \<Rightarrow> Authenticator option \<Rightarrow> Client" where
  "SetAuth c a = c\<lparr>auth := a\<rparr>"

section \<open>The request executor\<close>

subsection \<open>Collaborators and observable events\<close>

text \<open>
  What the executor calls and does not implement: \<^verbatim>\<open>json.Marshal\<close> of the body,
  \<^verbatim>\<open>json.Unmarshal\<close> into the result (which returns an error or not, and leaves a
  value in the result either way) and into an \<^verbatim>\<open>APIError\<close>, the transport's
  \<^verbatim>\<open>DoTimeout\<close>, and the \<^verbatim>\<open>select\<close> between \<^verbatim>\<open>ctx.Done()\<close> and the
  timer (\<open>Some e\<close>: the context finished first and \<^verbatim>\<open>ctx.Err()\<close> is \<open>e\<close>; \<open>None\<close>:
  the timer fired). \<open>DoTimeout\<close> and \<open>Select\<close> take the attempt number first, so their
  answers may change over time.
\<close>

record ('b, 'v) world =
  Marshal :: "'b \<Rightarrow> goerr + bytes"
  Unmarshal :: "bytes \<Rightarrow> 'v \<Rightarrow> goerr option \<times> 'v"
  UnmarshalAPIError :: "bytes \<Rightarrow> goerr + APIError"
  DoTimeout :: "nat \<Rightarrow> request \<Rightarrow> Duration \<Rightarrow> goerr + response"
  Select :: "nat \<Rightarrow> Context \<Rightarrow> Duration \<Rightarrow> ctx_err option"

text \<open>
  The calls the executor makes, in order: \<open>EvMarshal\<close> the serialization of the body,
  \<open>EvNewTimer k d\<close> the backoff timer of attempt \<open>k\<close>, \<open>EvAttempt k\<close> the start of
  the per-attempt function (a fresh request is acquired), \<open>EvAuthenticate k a\<close> the call
  of \<^verbatim>\<open>AuthenticateFastHTTP\<close> on the authenticator in state \<open>a\<close>, \<open>EvDoTimeout k req t\<close>
  the request handed to the transport, and \<open>EvLog level msg\<close> a call of the logger.
\<close>

datatype event =
    EvMarshal
  | EvNewTimer nat Duration
  | EvAttempt nat
  | EvAuthenticate nat Authenticator
  | EvDoTimeout nat request Duration
  | EvLog string string

record 'v outcome =
  err :: "goerr option"
  res :: "'v option"
  evs :: "event list"

text \<open>A logger call, made only when \<^verbatim>\<open>c.options.Logger != nil\<close>.\<close>

definition logf :: "Client \<Rightarrow> string \<Rightarrow> string \<Rightarrow> event list" where
  "logf c level msg = (case Logger (options c) of None \<Rightarrow> [] | Some l \<Rightarrow> [EvLog level msg])"

subsection \<open>One attempt: the anonymous function of the loop body\<close>

text \<open>
  The function is split where the source has its blank lines. First the fresh request
  (lines 278 to 290): URI, method and, when there are body bytes, the body and its
  content type.
\<close>

definition newRequest :: "string \<Rightarrow> string \<Rightarrow> bytes \<Rightarrow> request" where
  "newRequest url method jsonData =
     (let req = AcquireRequest\<lparr>RequestURI := url, Method := method\<rparr>
      in if length jsonData > 0
         then req\<lparr>request.Body := jsonData, ContentType := Some ''application/json''\<rparr>
         else req)"

text \<open>The authentication header (lines 292 to 297), skipped when \<^verbatim>\<open>c.auth\<close> is nil.\<close>

definition stamp :: "Client \<Rightarrow> nat \<Rightarrow> request \<Rightarrow> (goerr + request) \<times> event list" where
  "stamp c attempt req =
     (case auth c of
        None \<Rightarrow> (Inr req, [])
      | Some a \<Rightarrow> (AuthenticateFastHTTP attempt a req, [EvAuthenticate attempt a]))"

text \<open>What is done with a response (lines 304 to 339); the events are logger calls.\<close>

definition handleResponse ::
  "('b, 'v) world \<Rightarrow> Client \<Rightarrow> 'v option \<Rightarrow> response \<Rightarrow> 'v outcome" where
  "handleResponse w c result resp =
     (let statusCode = StatusCode resp; bodyBytes = response.Body resp
      in if statusCode \<ge> 200 \<and> statusCode < 300 then
           (case result of
              None \<Rightarrow> \<lparr>err = None, res = None, evs = []\<rparr>
            | Some v \<Rightarrow>
                (if length bodyBytes > 0 then
                   (case Unmarshal w bodyBytes v of
                      (Some e, v') \<Rightarrow>
                        \<lparr>err = Some (WrapError ''failed to unmarshal response: '' (Some e)),
                         res = Some v', evs = []\<rparr>
                    | (None, v') \<Rightarrow> \<lparr>err = None, res = Some v', evs = []\<rparr>)
                 else \<lparr>err = None, res = Some v, evs = []\<rparr>))
         else
           (case UnmarshalAPIError w bodyBytes of
              Inl e \<Rightarrow>
                \<lparr>err = Some (ErrorString (''HTTP '' @ Itoa statusCode @ '': '' @ bodyBytes)),
                 res = result, evs = []\<rparr>
            | Inr apiErr \<Rightarrow>
                (if statusCode \<ge> 400 \<and> statusCode < 500 \<and> statusCode \<noteq> 429 then
                   \<lparr>err = Some (APIErr apiErr), res = result,
                    evs = logf c ''Error'' ''client error''\<rparr>
                 else
                   \<lparr>err = Some (APIErr apiErr), res = result,
                    evs = logf c ''Error'' ''server error, will retry''\<rparr>)))"

definition prepend :: "event list \<Rightarrow> 'v outcome \<Rightarrow> 'v outcome" where
  "prepend es out = out\<lparr>evs := es @ evs out\<rparr>"

text \<open>The whole function: its value is the error it returns, nil as \<open>None\<close>.\<close>

definition doAttempt ::
  "('b, 'v) world \<Rightarrow> Client \<Rightarrow> string \<Rightarrow> string \<Rightarrow> bytes \<Rightarrow> 'v option \<Rightarrow> nat \<Rightarrow> 'v outcome" where
  "doAttempt w c url method jsonData result attempt =
     (case stamp c attempt (newRequest url method jsonData) of
        (Inl e, es) \<Rightarrow>
          \<lparr>err = Some (WrapError ''authentication failed: '' (Some e)), res = result,
           evs = EvAttempt attempt # es\<rparr>
      | (Inr req, es) \<Rightarrow>
          (case DoTimeout w attempt req (Timeout (options c)) of
             Inl e \<Rightarrow>
               \<lparr>err = Some (WrapError ''request failed: '' (Some e)), res = result,
                evs = EvAttempt attempt # es @ [EvDoTimeout attempt req (Timeout (options c))]\<rparr>
           | Inr resp \<Rightarrow>
               prepend (EvAttempt attempt # es @ [EvDoTimeout attempt req (Timeout (options c))])
                 (handleResponse w c result resp)))"

subsection \<open>The retry loop\<close>

text \<open>
  One pass through the body of the \<^verbatim>\<open>for\<close> loop either returns from \<^verbatim>\<open>doRequest\<close>
  or goes on to the next attempt with a new \<^verbatim>\<open>lastErr\<close>.
\<close>

datatype 'v step = Return "'v outcome" | Continue goerr "'v option" "event list"

text \<open>The backoff before a retry (lines 256 to 274): the context's error if it finished first.\<close>

definition backoff ::
  "('b, 'v) world \<Rightarrow> Client \<Rightarrow> Context \<Rightarrow> nat \<Rightarrow> ctx_err option \<times> event list" where
  "backoff w c ctx attempt =
     (if attempt > 0 then
        (let backoffDelay = RetryDelay (options c) * of_nat attempt
         in case Select w attempt ctx backoffDelay of
              Some e \<Rightarrow> (Some e, [EvNewTimer attempt backoffDelay])
            | None \<Rightarrow>
                (None, EvNewTimer attempt backoffDelay # logf c ''Debug'' ''retrying request''))
      else (None, []))"

text \<open>What the loop does with the error of an attempt (lines 342 to 360).\<close>

definition classify :: "Client \<Rightarrow> 'v outcome \<Rightarrow> 'v step" where
  "classify c out =
     (case err out of
        None \<Rightarrow> Return \<lparr>err = None, res = res out, evs = evs out\<rparr>
      | Some e \<Rightarrow>
          (case asAPIError e of
             Some apiErr \<Rightarrow>
               (if Status apiErr \<ge> 400 \<and> Status apiErr < 500 \<and> Status apiErr \<noteq> 429
                then Return \<lparr>err = Some (APIErr apiErr), res = res out, evs = evs out\<rparr>
                else Continue (APIErr apiErr) (res out) (evs out))
           | None \<Rightarrow> Continue e (res out) (evs out @ logf c ''Error'' ''request error'')))"

definition loopBody ::
  "('b, 'v) world \<Rightarrow> Client \<Rightarrow> Context \<Rightarrow> string \<Rightarrow> string \<Rightarrow> bytes \<Rightarrow> 'v option \<Rightarrow> nat \<Rightarrow> 'v step" where
  "loopBody w c ctx url method jsonData result attempt =
     (case backoff w c ctx attempt of
        (Some e, es) \<Rightarrow> Return \<lparr>err = Some (CtxErr e), res = result, evs = es\<rparr>
      | (None, es) \<Rightarrow>
          (case classify c (doAttempt w c url method jsonData result attempt) of
             Return out \<Rightarrow> Return (prepend es out)
           | Continue e result' es' \<Rightarrow> Continue e result' (es @ es')))"

text \<open>
  The loop \<^verbatim>\<open>for attempt := 0; attempt <= c.options.MaxRetries; attempt++\<close> from a given
  attempt number on, and the return after it. The counter is compared as an integer; Go's
  64-bit \<^verbatim>\<open>int\<close> agrees with that for every \<^verbatim>\<open>MaxRetries\<close> below \<open>2^63 - 1\<close>.
\<close>

function retryLoop ::
  "('b, 'v) world \<Rightarrow> Client \<Rightarrow> Context \<Rightarrow> string \<Rightarrow> string \<Rightarrow> bytes \<Rightarrow> nat \<Rightarrow> goerr option \<Rightarrow>
   'v option \<Rightarrow> 'v outcome" where
  "retryLoop w c ctx url method jsonData attempt lastErr result =
     (if int attempt \<le> MaxRetries (options c) then
        (case loopBody w c ctx url method jsonData result attempt of
           Return out \<Rightarrow> out
         | Continue e result' es \<Rightarrow>
             prepend es (retryLoop w c ctx url method jsonData (Suc attempt) (Some e) result'))
      else \<lparr>err = Some (WrapError ''max retries exceeded: '' lastErr), res = result, evs = []\<rparr>)"
  by pat_completeness auto
termination
  by (relation "measure (\<lambda>(w, c, ctx, url, method, jsonData, attempt, lastErr, result).
                   nat (MaxRetries (options c) + 1 - int attempt))") auto

declare retryLoop.simps [simp del]

subsection \<open>doRequest\<close>

text \<open>
  The two type switches at the head of \<^verbatim>\<open>doRequest\<close>: a \<open>ContextTokenAuth\<close> or a
  \<open>DynamicTokenAuth\<close> gets the caller's context stored in its \<^verbatim>\<open>ctx\<close> field. The
  authenticator is shared through a pointer, so the client sees the change.
\<close>

fun injectContext :: "Context \<Rightarrow> Authenticator \<Rightarrow> Authenticator" where
  "injectContext ctx (ContextTokenAuth old) = ContextTokenAuth (Some ctx)"
| "injectContext ctx (DynamicTokenAuth Provider old) = DynamicTokenAuth Provider (Some ctx)"
| "injectContext ctx (BearerTokenAuth Token) = BearerTokenAuth Token"
| "injectContext ctx (OAuthTokenAuth AccessToken) = OAuthTokenAuth AccessToken"

record 'a reply =
  client :: Client
  ret :: 'a
  error :: "goerr option"
  trace :: "event list"

text \<open>
  \<open>body\<close> is \<open>None\<close> for a nil body, \<open>result\<close> is \<open>None\<close> for a nil result and
  \<open>Some v\<close> for a pointer to a variable that holds \<open>v\<close>; \<open>ret\<close> is what that variable
  holds afterwards.
\<close>

definition doRequest ::
  "('b, 'v) world \<Rightarrow> Client \<Rightarrow> Context \<Rightarrow> string \<Rightarrow> string \<Rightarrow> 'b option \<Rightarrow> 'v option \<Rightarrow>
   'v option reply" where
  "doRequest w c ctx method path body result =
     (let url = baseURL @ path;
          c' = c\<lparr>auth := map_option (injectContext ctx) (auth c)\<rparr>
      in case body of
           None \<Rightarrow>
             (let out = retryLoop w c' ctx url method [] 0 None result
              in \<lparr>client = c', ret = res out, error = err out, trace = evs out\<rparr>)
         | Some b \<Rightarrow>
             (case Marshal w b of
                Inl marshalErr \<Rightarrow>
                  \<lparr>client = c', ret = result,
                   error = Some (WrapError ''failed to marshal request body: '' (Some marshalErr)),
                   trace = [EvMarshal]\<rparr>
              | Inr jsonData \<Rightarrow>
                  (let out = retryLoop w c' ctx url method jsonData 0 None result
                   in \<lparr>client = c', ret = res out, error = err out,
                       trace = EvMarshal # evs out\<rparr>)))"

section \<open>The permission operations (permissions.go)\<close>

record PermissionCheckRequest =
  SubjectType :: string
  SubjectID :: string
  Relation :: string
  ObjectNamespace :: string
  ObjectID :: string

definition PermissionCheckRequest_Validate :: "PermissionCheckRequest \<Rightarrow> goerr option" where
  "PermissionCheckRequest_Validate r =
     (if PermissionCheckRequest.SubjectType r = [] then Some (ErrorString ''subjectType is required'')
      else if PermissionCheckRequest.SubjectID r = [] then Some (ErrorString ''subjectId is required'')
      else if PermissionCheckRequest.Relation r = [] then Some (ErrorString ''relation is required'')
      else if PermissionCheckRequest.ObjectNamespace r = []
        then Some (ErrorString ''objectNamespace is required'')
      else if PermissionCheckRequest.ObjectID r = [] then Some (ErrorString ''objectId is required'')
      else None)"

record PermissionCheckResponse =
  Allowed :: bool
  Message :: string

record PermissionWriteRequest =
  ObjectNamespace :: string
  ObjectID :: string
  Relation :: string
  SubjectType :: string
  SubjectID :: string
  SubjectRelation :: "string option"

definition PermissionWriteRequest_Validate :: "PermissionWriteRequest \<Rightarrow> goerr option" where
  "PermissionWriteRequest_Validate r =
     (if PermissionWriteRequest.ObjectNamespace r = []
        then Some (ErrorString ''objectNamespace is required'')
      else if PermissionWriteRequest.ObjectID r = [] then Some (ErrorString ''objectId is required'')
      else if PermissionWriteRequest.Relation r = [] then Some (ErrorString ''relation is required'')
      else if PermissionWriteRequest.SubjectType r = []
        then Some (ErrorString ''subjectType is required'')
      else if PermissionWriteRequest.SubjectID r = [] then Some (ErrorString ''subjectId is required'')
      else None)"

record PermissionDeleteRequest =
  ObjectNamespace :: string
  ObjectID :: string
  Relation :: string
  SubjectType :: string
  SubjectID :: string

definition PermissionDeleteRequest_Validate :: "PermissionDeleteRequest \<Rightarrow> goerr option" where
  "PermissionDeleteRequest_Validate r =
     (if PermissionDeleteRequest.ObjectNamespace r = []
        then Some (ErrorString ''objectNamespace is required'')
      else if PermissionDeleteRequest.ObjectID r = [] then Some (ErrorString ''objectId is required'')
      else if PermissionDeleteRequest.Relation r = [] then Some (ErrorString ''relation is required'')
      else if PermissionDeleteRequest.SubjectType r = []
        then Some (ErrorString ''subjectType is required'')
      else if PermissionDeleteRequest.SubjectID r = [] then Some (ErrorString ''subjectId is required'')
      else None)"

record Permission =
  ID :: "64 word"
  ObjectNamespace :: string
  ObjectID :: string
  Relation :: string
  SubjectType :: string
  SubjectID :: string
  SubjectRelation :: "string option"
  CreatedAt :: string

text \<open>
  Each operation takes the request as \<open>None\<close> for a nil pointer. The variable handed to
  \<^verbatim>\<open>doRequest\<close> as the result starts at the zero value of its type.
\<close>

definition CheckPermission ::
  "(PermissionCheckRequest, PermissionCheckResponse) world \<Rightarrow> Client \<Rightarrow> Context \<Rightarrow>
   PermissionCheckRequest option \<Rightarrow> PermissionCheckResponse option reply" where
  "CheckPermission w c ctx req =
     (case req of
        None \<Rightarrow>
          \<lparr>client = c, ret = None, error = Some (ErrorString ''permission check request is nil''),
           trace = []\<rparr>
      | Some r \<Rightarrow>
          (case PermissionCheckRequest_Validate r of
             Some e \<Rightarrow>
               \<lparr>client = c, ret = None, error = Some (WrapError ''invalid request: '' (Some e)),
                trace = []\<rparr>
           | None \<Rightarrow>
               (let resp = \<lparr>Allowed = False, PermissionCheckResponse.Message = []\<rparr>;
                    out = doRequest w c ctx ''POST'' ''/api/anamericano/check'' (Some r) (Some resp)
                in case error out of
                     Some e \<Rightarrow>
                       \<lparr>client = client out, ret = None, error = Some e, trace = trace out\<rparr>
                   | None \<Rightarrow>
                       \<lparr>client = client out, ret = ret out, error = None, trace = trace out\<rparr>)))"

definition WritePermission ::
  "(PermissionWriteRequest, Permission) world \<Rightarrow> Client \<Rightarrow> Context \<Rightarrow>
   PermissionWriteRequest option \<Rightarrow> Permission option reply" where
  "WritePermission w c ctx req =
     (case req of
        None \<Rightarrow>
          \<lparr>client = c, ret = None, error = Some (ErrorString ''permission write request is nil''),
           trace = []\<rparr>
      | Some r \<Rightarrow>
          (case PermissionWriteRequest_Validate r of
             Some e \<Rightarrow>
               \<lparr>client = c, ret = None, error = Some (WrapError ''invalid request: '' (Some e)),
                trace = []\<rparr>
           | None \<Rightarrow>
               (let perm = \<lparr>ID = 0, Permission.ObjectNamespace = [], Permission.ObjectID = [],
                            Permission.Relation = [], Permission.SubjectType = [],
                            Permission.SubjectID = [], Permission.SubjectRelation = None,
                            CreatedAt = []\<rparr>;
                    out = doRequest w c ctx ''POST'' ''/api/anamericano/write'' (Some r) (Some perm)
                in case error out of
                     Some e \<Rightarrow>
                       \<lparr>client = client out, ret = None, error = Some e, trace = trace out\<rparr>
                   | None \<Rightarrow>
                       \<lparr>client = client out, ret = ret out, error = None, trace = trace out\<rparr>)))"

definition DeletePermission ::
  "(PermissionDeleteRequest, 'v) world \<Rightarrow> Client \<Rightarrow> Context \<Rightarrow>
   PermissionDeleteRequest option \<Rightarrow> unit reply" where
  "DeletePermission w c ctx req =
     (case req of
        None \<Rightarrow>
          \<lparr>client = c, ret = (), error = Some (ErrorString ''permission delete request is nil''),
           trace = []\<rparr>
      | Some r \<Rightarrow>
          (case PermissionDeleteRequest_Validate r of
             Some e \<Rightarrow>
               \<lparr>client = c, ret = (), error = Some (WrapError ''invalid request: '' (Some e)),
                trace = []\<rparr>
           | None \<Rightarrow>
               (let out = doRequest w c ctx ''DELETE'' ''/api/anamericano/delete'' (Some r) None
                in \<lparr>client = client out, ret = (), error = error out, trace = trace out\<rparr>)))"

text \<open>
  The three read operations return the slice variable together with the error of
  \<^verbatim>\<open>doRequest\<close>; the slice is read after the call, as the compiler does for a variable
  whose address was taken.
\<close>

definition ReadPermissions ::
  "('b, Permission list) world \<Rightarrow> Client \<Rightarrow> Context \<Rightarrow> string \<Rightarrow> string \<Rightarrow> Permission list reply" where
  "ReadPermissions w c ctx namespace objectID =
     (if namespace = [] then
        \<lparr>client = c, ret = [], error = Some (ErrorString ''namespace is required''), trace = []\<rparr>
      else if objectID = [] then
        \<lparr>client = c, ret = [], error = Some (ErrorString ''objectId is required''), trace = []\<rparr>
      else
        (let path = ''/api/anamericano/read/'' @ namespace @ ''/'' @ objectID;
             out = doRequest w c ctx ''GET'' path None (Some [])
         in \<lparr>client = client out, ret = (case ret out of None \<Rightarrow> [] | Some perms \<Rightarrow> perms),
             error = error out, trace = trace out\<rparr>))"

definition ExpandPermissions ::
  "('b, string list) world \<Rightarrow> Client \<Rightarrow> Context \<Rightarrow> string \<Rightarrow> string \<Rightarrow> string \<Rightarrow> string list reply" where
  "ExpandPermissions w c ctx namespace objectID relation =
     (if namespace = [] then
        \<lparr>client = c, ret = [], error = Some (ErrorString ''namespace is required''), trace = []\<rparr>
      else if objectID = [] then
        \<lparr>client = c, ret = [], error = Some (ErrorString ''objectId is required''), trace = []\<rparr>
      else if relation = [] then
        \<lparr>client = c, ret = [], error = Some (ErrorString ''relation is required''), trace = []\<rparr>
      else
        (let path = ''/api/anamericano/expand/'' @ namespace @ ''/'' @ objectID @ ''/'' @ relation;
             out = doRequest w c ctx ''GET'' path None (Some [])
         in \<lparr>client = client out, ret = (case ret out of None \<Rightarrow> [] | Some subjects \<Rightarrow> subjects),
             error = error out, trace = trace out\<rparr>))"

definition ListObjects ::
  "('b, string list) world \<Rightarrow> Client \<Rightarrow> Context \<Rightarrow> string \<Rightarrow> string \<Rightarrow> string \<Rightarrow> string \<Rightarrow>
   string list reply" where
  "ListObjects w c ctx subjectType subjectID relation namespace =
     (if subjectType = [] then
        \<lparr>client = c, ret = [], error = Some (ErrorString ''subjectType is required''), trace = []\<rparr>
      else if subjectID = [] then
        \<lparr>client = c, ret = [], error = Some (ErrorString ''subjectId is required''), trace = []\<rparr>
      else if relation = [] then
        \<lparr>client = c, ret = [], error = Some (ErrorString ''relation is required''), trace = []\<rparr>
      else if namespace = [] then
        \<lparr>client = c, ret = [], error = Some (ErrorString ''namespace is required''), trace = []\<rparr>
      else
        (let path = ''/api/anamericano/list/'' @ subjectType @ ''/'' @ subjectID @ ''/'' @ relation
                      @ ''/'' @ namespace;
             out = doRequest w c ctx ''GET'' path None (Some [])
         in \<lparr>client = client out, ret = (case ret out of None \<Rightarrow> [] | Some objects \<Rightarrow> objects),
             error = error out, trace = trace out\<rparr>))"

section \<open>Reading a trace\<close>

text \<open>The number of attempts: how often the per-attempt function was entered.\<close>

fun isAttempt :: "event \<Rightarrow> bool" where
  "isAttempt (EvAttempt k) = True"
| "isAttempt EvMarshal = False"
| "isAttempt (EvNewTimer k d) = False"
| "isAttempt (EvAuthenticate k a) = False"
| "isAttempt (EvDoTimeout k req t) = False"
| "isAttempt (EvLog level msg) = False"

definition attempts :: "event list \<Rightarrow> nat" where
  "attempts tr = length (filter isAttempt tr)"

text \<open>The requests handed to the transport, in order.\<close>

fun sentBy :: "event \<Rightarrow> request list" where
  "sentBy (EvDoTimeout k req t) = [req]"
| "sentBy EvMarshal = []"
| "sentBy (EvNewTimer k d) = []"
| "sentBy (EvAttempt k) = []"
| "sentBy (EvAuthenticate k a) = []"
| "sentBy (EvLog level msg) = []"

definition sent :: "event list \<Rightarrow> request list" where
  "sent tr = concat (map sentBy tr)"

text \<open>The authenticators consulted on attempt \<open>k\<close>, in order.\<close>

fun stampBy :: "nat \<Rightarrow> event \<Rightarrow> Authenticator list" where
  "stampBy k (EvAuthenticate j a) = (if j = k then [a] else [])"
| "stampBy k EvMarshal = []"
| "stampBy k (EvNewTimer j d) = []"
| "stampBy k (EvAttempt j) = []"
| "stampBy k (EvDoTimeout j req t) = []"
| "stampBy k (EvLog level msg) = []"

definition stamps :: "nat \<Rightarrow> event list \<Rightarrow> Authenticator list" where
  "stamps k tr = concat (map (stampBy k) tr)"

section \<open>Example inputs\<close>

text \<open>
  A transport that always answers with the same response, a decoder of error bodies that
  always gives the same result, a decoder of results that always gives the same error or
  none, and a context that is cancelled during the backoff before one attempt or never.
\<close>

definition exampleWorld ::
  "response \<Rightarrow> goerr + APIError \<Rightarrow> goerr option \<Rightarrow> nat option \<Rightarrow> ('b, 'v) world" where
  "exampleWorld resp dec um cancelAt =
     \<lparr>Marshal = (\<lambda>b. Inr ''{}''), Unmarshal = (\<lambda>bs v. (um, v)), UnmarshalAPIError = (\<lambda>bs. dec),
      DoTimeout = (\<lambda>k req t. Inr resp),
      Select = (\<lambda>k ctx d. if Some k = cancelAt then Some Canceled else None)\<rparr>"

definition exampleError :: "int \<Rightarrow> APIError" where
  "exampleError s = \<lparr>Timestamp = ''2025-11-22T00:00:00Z'', Status = s, ErrorType = ''Error'',
     APIError.Message = ''refused'', Path = ''/api/anamericano/check''\<rparr>"

text \<open>A server that accepts everything, and servers that always refuse in one way.\<close>

abbreviation okWorld :: "('b, 'v) world" where
  "okWorld \<equiv> exampleWorld \<lparr>StatusCode = 200, response.Body = []\<rparr> (Inl (ErrorString ''EOF'')) None None"

abbreviation notFoundWorld :: "('b, 'v) world" where
  "notFoundWorld \<equiv> exampleWorld \<lparr>StatusCode = 404, response.Body = ''no such object''\<rparr>
     (Inr (exampleError 404)) None None"

abbreviation throttledWorld :: "('b, 'v) world" where
  "throttledWorld \<equiv> exampleWorld \<lparr>StatusCode = 429, response.Body = ''slow down''\<rparr>
     (Inr (exampleError 429)) None None"

abbreviation cancelledWorld :: "('b, 'v) world" where
  "cancelledWorld \<equiv> exampleWorld \<lparr>StatusCode = 500, response.Body = ''broken''\<rparr>
     (Inr (exampleError 500)) None (Some 2)"

abbreviation garbledWorld :: "('b, 'v) world" where
  "garbledWorld \<equiv> exampleWorld \<lparr>StatusCode = 200, response.Body = ''<html>''\<rparr>
     (Inl (ErrorString ''invalid character'')) (Some (ErrorString ''invalid character'')) None"

abbreviation gatewayWorld :: "('b, 'v) world" where
  "gatewayWorld \<equiv> exampleWorld \<lparr>StatusCode = 502, response.Body = ''Bad Gateway''\<rparr>
     (Inl (ErrorString ''invalid character'')) None None"

definition exampleClient :: Client where
  "exampleClient = NewClient (Some (BearerTokenAuth ''secret'')) None"

definition anonymousClient :: Client where
  "anonymousClient = NewClient None None"

definition emptyTokenClient :: Client where
  "emptyTokenClient = NewClient (Some (BearerTokenAuth [])) None"

definition contextClient :: Client where
  "contextClient = NewClient (Some (ContextTokenAuth None)) None"

definition exampleProvider :: TokenProvider where
  "exampleProvider k ctx = (''fetched'', None)"

definition dynamicClient :: Client where
  "dynamicClient = NewClient (Some (DynamicTokenAuth exampleProvider None)) None"

definition exampleCheck :: PermissionCheckRequest where
  "exampleCheck = \<lparr>PermissionCheckRequest.SubjectType = ''user'', PermissionCheckRequest.SubjectID = ''hanul'',
     PermissionCheckRequest.Relation = ''viewer'', PermissionCheckRequest.ObjectNamespace = ''document'',
     PermissionCheckRequest.ObjectID = ''doc1''\<rparr>"

definition exampleWrite :: PermissionWriteRequest where
  "exampleWrite = \<lparr>PermissionWriteRequest.ObjectNamespace = ''document'',
     PermissionWriteRequest.ObjectID = ''doc1'', PermissionWriteRequest.Relation = ''editor'',
     PermissionWriteRequest.SubjectType = ''user'', PermissionWriteRequest.SubjectID = ''koyun'',
     PermissionWriteRequest.SubjectRelation = None\<rparr>"

definition exampleDelete :: PermissionDeleteRequest where
  "exampleDelete = \<lparr>PermissionDeleteRequest.ObjectNamespace = ''document'',
     PermissionDeleteRequest.ObjectID = ''doc1'', PermissionDeleteRequest.Relation = ''viewer'',
     PermissionDeleteRequest.SubjectType = ''user'', PermissionDeleteRequest.SubjectID = ''hanul''\<rparr>"

text \<open>
  Calls of \<^verbatim>\<open>doRequest\<close> as \<^verbatim>\<open>CheckPermission\<close> and \<^verbatim>\<open>ExpandPermissions\<close> make
  them, against some of these servers.
\<close>

definition notFoundRun :: "PermissionCheckResponse option reply" where
  "notFoundRun = doRequest (notFoundWorld :: (PermissionCheckRequest, PermissionCheckResponse) world) exampleClient
     Background ''POST'' ''/api/anamericano/check'' (Some exampleCheck)
     (Some \<lparr>Allowed = False, PermissionCheckResponse.Message = []\<rparr>)"

definition throttledRun :: "PermissionCheckResponse option reply" where
  "throttledRun = doRequest (throttledWorld :: (PermissionCheckRequest, PermissionCheckResponse) world) exampleClient
     Background ''POST'' ''/api/anamericano/check'' (Some exampleCheck)
     (Some \<lparr>Allowed = False, PermissionCheckResponse.Message = []\<rparr>)"

definition cancelledRun :: "PermissionCheckResponse option reply" where
  "cancelledRun = doRequest (cancelledWorld :: (PermissionCheckRequest, PermissionCheckResponse) world) exampleClient
     Background ''POST'' ''/api/anamericano/check'' (Some exampleCheck)
     (Some \<lparr>Allowed = False, PermissionCheckResponse.Message = []\<rparr>)"

definition expandRun :: "Client \<Rightarrow> Context \<Rightarrow> string list option reply" where
  "expandRun c ctx = doRequest (okWorld :: (unit, string list) world) c ctx
     ''GET'' ''/api/anamericano/expand/document/doc1/viewer'' None (Some [])"

section \<open>Properties of one attempt\<close>

lemma attempts_simps [simp]:
  "attempts [] = 0"
  "attempts (e # tr) = (if isAttempt e then Suc (attempts tr) else attempts tr)"
  "attempts (tr @ tr') = attempts tr + attempts tr'"
  by (simp_all add: attempts_def)

lemma sent_simps [simp]:
  "sent [] = []"
  "sent (e # tr) = sentBy e @ sent tr"
  "sent (tr @ tr') = sent tr @ sent tr'"
  by (simp_all add: sent_def)

lemma stamps_simps [simp]:
  "stamps k [] = []"
  "stamps k (e # tr) = stampBy k e @ stamps k tr"
  "stamps k (tr @ tr') = stamps k tr @ stamps k tr'"
  by (simp_all add: stamps_def)

lemma logf_trace [simp]:
  "attempts (logf c level msg) = 0"
  "sent (logf c level msg) = []"
  "stamps k (logf c level msg) = []"
  "EvAttempt j \<notin> set (logf c level msg)"
  "EvNewTimer j d \<notin> set (logf c level msg)"
  "EvMarshal \<notin> set (logf c level msg)"
  "EvDoTimeout j req t \<notin> set (logf c level msg)"
  by (simp_all add: logf_def split: option.splits)

lemma AuthenticateFastHTTP_keeps:
  assumes "AuthenticateFastHTTP k a req = Inr req'"
  shows "request.Body req' = request.Body req \<and> RequestURI req' = RequestURI req
         \<and> Method req' = Method req \<and> ContentType req' = ContentType req"
  using assms
  by (cases a) (auto simp: Let_def split: if_splits option.splits prod.splits ctx_val.splits)

lemma handleResponse_trace [simp]:
  "attempts (evs (handleResponse w c result resp)) = 0"
  "sent (evs (handleResponse w c result resp)) = []"
  "stamps k (evs (handleResponse w c result resp)) = []"
  "EvAttempt j \<notin> set (evs (handleResponse w c result resp))"
  "EvNewTimer j d \<notin> set (evs (handleResponse w c result resp))"
  "EvMarshal \<notin> set (evs (handleResponse w c result resp))"
  "EvDoTimeout j req t \<notin> set (evs (handleResponse w c result resp))"
  by (simp_all add: handleResponse_def Let_def split: option.splits sum.splits prod.splits)

lemma evs_prepend [simp]: "evs (prepend es out) = es @ evs out"
  "err (prepend es out) = err out" "res (prepend es out) = res out"
  by (simp_all add: prepend_def)

lemma stamp_cases:
  "stamp c k req = (x, es) \<Longrightarrow>
     (auth c = None \<and> x = Inr req \<and> es = []) \<or>
     (\<exists>a. auth c = Some a \<and> x = AuthenticateFastHTTP k a req \<and> es = [EvAuthenticate k a])"
  by (auto simp: stamp_def split: option.splits)

lemma attempts_doAttempt [simp]:
  "attempts (evs (doAttempt w c url meth jsonData result k)) = 1"
  by (auto simp: doAttempt_def split: sum.splits prod.splits dest!: stamp_cases)

lemma stamps_doAttempt [simp]:
  "stamps j (evs (doAttempt w c url meth jsonData result k)) =
     (if j = k then (case auth c of None \<Rightarrow> [] | Some a \<Rightarrow> [a]) else [])"
  by (auto simp: doAttempt_def split: sum.splits prod.splits dest!: stamp_cases)


lemma newRequest_fields [simp]:
  "RequestURI (newRequest url meth jsonData) = url"
  "Method (newRequest url meth jsonData) = meth"
  "request.Body (newRequest url meth jsonData) = jsonData"
  by (simp_all add: newRequest_def AcquireRequest_def Let_def)

lemma stamp_keeps:
  assumes "stamp c k req = (Inr req', es)"
  shows "request.Body req' = request.Body req \<and> RequestURI req' = RequestURI req
         \<and> Method req' = Method req"
  using assms AuthenticateFastHTTP_keeps
  by (fastforce simp: stamp_def split: option.splits)

lemma stamp_events [simp]:
  "attempts (snd (stamp c k req)) = 0"
  "sent (snd (stamp c k req)) = []"
  "EvAttempt j \<notin> set (snd (stamp c k req))"
  "EvNewTimer j d \<notin> set (snd (stamp c k req))"
  "EvMarshal \<notin> set (snd (stamp c k req))"
  "EvDoTimeout j r t \<notin> set (snd (stamp c k req))"
  by (simp_all add: stamp_def split: option.splits)

lemma doAttempt_head:
  "\<exists>rest. evs (doAttempt w c url meth jsonData result k) = EvAttempt k # rest
     \<and> EvMarshal \<notin> set rest \<and> (\<forall>j. EvAttempt j \<notin> set rest) \<and> (\<forall>j d. EvNewTimer j d \<notin> set rest)
     \<and> (\<forall>j r t. EvDoTimeout j r t \<in> set rest \<longrightarrow> j = k)"
proof (cases "stamp c k (newRequest url meth jsonData)")
  case (Pair x es)
  have es: "EvMarshal \<notin> set es" "\<And>j. EvAttempt j \<notin> set es" "\<And>j d. EvNewTimer j d \<notin> set es"
    "\<And>j r t. EvDoTimeout j r t \<notin> set es"
  proof -
    from Pair have "es = snd (stamp c k (newRequest url meth jsonData))" by simp
    then show "EvMarshal \<notin> set es" "\<And>j. EvAttempt j \<notin> set es"
      "\<And>j d. EvNewTimer j d \<notin> set es" "\<And>j r t. EvDoTimeout j r t \<notin> set es"
      by simp_all
  qed
  show ?thesis
    using Pair es by (cases x) (auto simp: doAttempt_def split: sum.splits)
qed

lemma sent_doAttempt:
  assumes "r \<in> set (sent (evs (doAttempt w c url meth jsonData result k)))"
  shows "RequestURI r = url \<and> Method r = meth \<and> request.Body r = jsonData"
proof (cases "stamp c k (newRequest url meth jsonData)")
  case (Pair x es)
  have es: "sent es = []"
  proof -
    from Pair have "es = snd (stamp c k (newRequest url meth jsonData))" by simp
    then show ?thesis by simp
  qed
  show ?thesis
  proof (cases x)
    case (Inl e)
    with assms Pair es show ?thesis by (simp add: doAttempt_def)
  next
    case (Inr req)
    with Pair have "request.Body req = jsonData \<and> RequestURI req = url \<and> Method req = meth"
      using stamp_keeps [of c k "newRequest url meth jsonData" req es] by simp
    with assms Pair Inr es show ?thesis
      by (auto simp: doAttempt_def split: sum.splits)
  qed
qed


lemma set_doAttempt [simp]:
  "EvAttempt j \<in> set (evs (doAttempt w c url meth jsonData result k)) \<longleftrightarrow> j = k"
  "EvNewTimer j d \<notin> set (evs (doAttempt w c url meth jsonData result k))"
  "EvMarshal \<notin> set (evs (doAttempt w c url meth jsonData result k))"
  using doAttempt_head [of w c url meth jsonData result k] by auto

lemma doAttempt_DoTimeout_index:
  assumes "EvDoTimeout j r t \<in> set (evs (doAttempt w c url meth jsonData result k))"
  shows "j = k"
proof -
  obtain rest where rest: "evs (doAttempt w c url meth jsonData result k) = EvAttempt k # rest"
    and idx: "\<forall>j r t. EvDoTimeout j r t \<in> set rest \<longrightarrow> j = k"
    using doAttempt_head [of w c url meth jsonData result k] by blast
  from assms rest have "EvDoTimeout j r t \<in> set rest" by simp
  with idx show ?thesis by blast
qed

section \<open>Properties of the retry loop\<close>

lemma asAPIError_Some [simp]: "asAPIError e = Some a \<longleftrightarrow> e = APIErr a"
  by (cases e) auto

lemma backoff_cases:
  assumes "backoff w c ctx k = (x, es)"
  shows "(k = 0 \<and> x = None \<and> es = []) \<or>
         (0 < k \<and> x \<noteq> None \<and> Select w k ctx (RetryDelay (options c) * of_nat k) = x
            \<and> es = [EvNewTimer k (RetryDelay (options c) * of_nat k)]) \<or>
         (0 < k \<and> x = None \<and> Select w k ctx (RetryDelay (options c) * of_nat k) = None
            \<and> es = EvNewTimer k (RetryDelay (options c) * of_nat k)
                     # logf c ''Debug'' ''retrying request'')"
  using assms by (auto simp: backoff_def Let_def split: if_splits option.splits)

lemma classify_Return:
  assumes "classify c out = Return out'"
  shows "evs out' = evs out \<and> res out' = res out \<and> err out' = err out
         \<and> (err out = None \<or>
             (\<exists>a. err out = Some (APIErr a) \<and> Status a \<ge> 400 \<and> Status a < 500 \<and> Status a \<noteq> 429))"
  using assms by (auto simp: classify_def split: option.splits if_splits)

lemma classify_Continue:
  assumes "classify c out = Continue e r es"
  shows "err out = Some e \<and> r = res out
         \<and> (es = evs out \<or> es = evs out @ logf c ''Error'' ''request error'')
         \<and> (\<forall>a. e = APIErr a \<longrightarrow> \<not> (Status a \<ge> 400 \<and> Status a < 500 \<and> Status a \<noteq> 429))"
  using assms by (auto simp: classify_def split: option.splits if_splits)

text \<open>What a pass of the loop body for attempt k has done when it returns, and when it goes on.\<close>

lemma loopBody_Return:
  assumes "loopBody w c ctx url meth jsonData result k = Return out"
  shows "(\<exists>e. 0 < k \<and> Select w k ctx (RetryDelay (options c) * of_nat k) = Some e
            \<and> err out = Some (CtxErr e) \<and> res out = result
            \<and> evs out = [EvNewTimer k (RetryDelay (options c) * of_nat k)])
         \<or> ((k = 0 \<or> Select w k ctx (RetryDelay (options c) * of_nat k) = None)
            \<and> evs out = (if 0 < k then EvNewTimer k (RetryDelay (options c) * of_nat k)
                     # logf c ''Debug'' ''retrying request'' else [])
                  @ evs (doAttempt w c url meth jsonData result k)
            \<and> err out = err (doAttempt w c url meth jsonData result k)
            \<and> (err out = None \<or>
             (\<exists>a. err out = Some (APIErr a) \<and> Status a \<ge> 400 \<and> Status a < 500 \<and> Status a \<noteq> 429)))"
proof (cases "backoff w c ctx k")
  case (Pair x es)
  from backoff_cases [OF Pair] assms Pair show ?thesis
    by (auto simp: loopBody_def split: option.splits step.splits dest!: classify_Return)
qed

lemma loopBody_Continue:
  assumes "loopBody w c ctx url meth jsonData result k = Continue e r es"
  shows "(k = 0 \<or> Select w k ctx (RetryDelay (options c) * of_nat k) = None)
         \<and> err (doAttempt w c url meth jsonData result k) = Some e
         \<and> r = res (doAttempt w c url meth jsonData result k)
         \<and> (\<exists>ls. es = (if 0 < k then EvNewTimer k (RetryDelay (options c) * of_nat k)
                     # logf c ''Debug'' ''retrying request'' else [])
                  @ evs (doAttempt w c url meth jsonData result k) @ ls
               \<and> (ls = [] \<or> ls = logf c ''Error'' ''request error''))
         \<and> (\<forall>a. e = APIErr a \<longrightarrow> \<not> (Status a \<ge> 400 \<and> Status a < 500 \<and> Status a \<noteq> 429))"
proof (cases "backoff w c ctx k")
  case (Pair x es')
  from backoff_cases [OF Pair] assms Pair show ?thesis
    by (auto simp: loopBody_def split: option.splits step.splits dest!: classify_Continue)
qed

lemma retryLoop_exhausted:
  "\<not> int a \<le> MaxRetries (options c) \<Longrightarrow>
   retryLoop w c ctx url meth jsonData a lastErr result =
     \<lparr>err = Some (WrapError ''max retries exceeded: '' lastErr), res = result, evs = []\<rparr>"
  by (subst retryLoop.simps) simp

lemma retryLoop_Return:
  "int a \<le> MaxRetries (options c) \<Longrightarrow> loopBody w c ctx url meth jsonData result a = Return out \<Longrightarrow>
   retryLoop w c ctx url meth jsonData a lastErr result = out"
  by (subst retryLoop.simps) simp

lemma retryLoop_Continue:
  "int a \<le> MaxRetries (options c) \<Longrightarrow>
   loopBody w c ctx url meth jsonData result a = Continue e r es \<Longrightarrow>
   retryLoop w c ctx url meth jsonData a lastErr result =
     prepend es (retryLoop w c ctx url meth jsonData (Suc a) (Some e) r)"
  by (subst retryLoop.simps) simp


lemma retryLoop_no_marshal:
  "EvMarshal \<notin> set (evs (retryLoop w c ctx url meth jsonData a lastErr result))"
proof (induction w c ctx url meth jsonData a lastErr result rule: retryLoop.induct)
  case (1 w c ctx url meth jsonData a lastErr result)
  show ?case
  proof (cases "int a \<le> MaxRetries (options c)")
    case False
    then show ?thesis by (simp add: retryLoop_exhausted)
  next
    case True
    show ?thesis
    proof (cases "loopBody w c ctx url meth jsonData result a")
      case (Return out)
      from loopBody_Return [OF Return] show ?thesis
        by (auto simp: retryLoop_Return [OF True Return])
    next
      case (Continue e r es)
      from loopBody_Continue [OF Continue] 1 [OF True Continue] show ?thesis
        by (auto simp: retryLoop_Continue [OF True Continue])
    qed
  qed
qed

lemma retryLoop_sent:
  "r \<in> set (sent (evs (retryLoop w c ctx url meth jsonData a lastErr result))) \<Longrightarrow>
   RequestURI r = url \<and> Method r = meth \<and> request.Body r = jsonData"
proof (induction w c ctx url meth jsonData a lastErr result rule: retryLoop.induct)
  case (1 w c ctx url meth jsonData a lastErr result)
  show ?case
  proof (cases "int a \<le> MaxRetries (options c)")
    case False
    with 1(2) show ?thesis by (simp add: retryLoop_exhausted)
  next
    case True
    show ?thesis
    proof (cases "loopBody w c ctx url meth jsonData result a")
      case (Return out)
      from loopBody_Return [OF Return] 1(2) show ?thesis
        by (auto simp: retryLoop_Return [OF True Return] dest: sent_doAttempt split: if_splits)
    next
      case (Continue e r' es)
      from loopBody_Continue [OF Continue] 1(2) 1(1) [OF True Continue] show ?thesis
        by (auto simp: retryLoop_Continue [OF True Continue] dest: sent_doAttempt split: if_splits)
    qed
  qed
qed

text \<open>Events of the loop started at attempt a carry numbers from a to MaxRetries.\<close>

lemma retryLoop_index:
  "(EvAttempt j \<in> set (evs (retryLoop w c ctx url meth jsonData a lastErr result))
      \<longrightarrow> a \<le> j \<and> int j \<le> MaxRetries (options c))
   \<and> (EvNewTimer j d \<in> set (evs (retryLoop w c ctx url meth jsonData a lastErr result))
      \<longrightarrow> a \<le> j \<and> 0 < j \<and> d = RetryDelay (options c) * of_nat j)
   \<and> (EvDoTimeout j req t \<in> set (evs (retryLoop w c ctx url meth jsonData a lastErr result))
      \<longrightarrow> a \<le> j)"
proof (induction w c ctx url meth jsonData a lastErr result rule: retryLoop.induct)
  case (1 w c ctx url meth jsonData a lastErr result)
  show ?case
  proof (cases "int a \<le> MaxRetries (options c)")
    case False
    then show ?thesis by (simp add: retryLoop_exhausted)
  next
    case True
    show ?thesis
    proof (cases "loopBody w c ctx url meth jsonData result a")
      case (Return out)
      from loopBody_Return [OF Return] True show ?thesis
        by (auto simp: retryLoop_Return [OF True Return] split: if_splits
            dest: doAttempt_DoTimeout_index)
    next
      case (Continue e r es)
      from loopBody_Continue [OF Continue] True 1 [OF True Continue] show ?thesis
        by (auto simp: retryLoop_Continue [OF True Continue] split: if_splits
            dest: doAttempt_DoTimeout_index)
    qed
  qed
qed

lemma doRequest_sent:
  assumes "r \<in> set (sent (trace (doRequest w c ctx meth path body result)))"
  shows "Method r = meth \<and> RequestURI r = baseURL @ path"
  using assms
  by (auto simp: doRequest_def Let_def split: option.splits sum.splits dest: retryLoop_sent)

lemma retryLoop_attempt_index:
  "EvAttempt j \<in> set (evs (retryLoop w c ctx url meth jsonData a lastErr result)) \<Longrightarrow>
   a \<le> j \<and> int j \<le> MaxRetries (options c)"
  using retryLoop_index by blast

lemma retryLoop_timer_index:
  "EvNewTimer j d \<in> set (evs (retryLoop w c ctx url meth jsonData a lastErr result)) \<Longrightarrow>
   a \<le> j \<and> 0 < j \<and> d = RetryDelay (options c) * of_nat j"
  using retryLoop_index by blast

lemma retryLoop_send_index:
  "EvDoTimeout j req t \<in> set (evs (retryLoop w c ctx url meth jsonData a lastErr result)) \<Longrightarrow>
   a \<le> j"
  using retryLoop_index by blast

lemma retryLoop_stamps:
  "stamps j (evs (retryLoop w c ctx url meth jsonData a lastErr result)) =
     (if EvAttempt j \<in> set (evs (retryLoop w c ctx url meth jsonData a lastErr result))
      then (case auth c of None \<Rightarrow> [] | Some x \<Rightarrow> [x]) else [])"
proof (induction w c ctx url meth jsonData a lastErr result rule: retryLoop.induct)
  case (1 w c ctx url meth jsonData a lastErr result)
  show ?case
  proof (cases "int a \<le> MaxRetries (options c)")
    case False
    then show ?thesis by (simp add: retryLoop_exhausted)
  next
    case True
    show ?thesis
    proof (cases "loopBody w c ctx url meth jsonData result a")
      case (Return out)
      from loopBody_Return [OF Return] show ?thesis
        by (auto simp: retryLoop_Return [OF True Return] split: if_splits)
    next
      case (Continue e r es)
      have later: "EvAttempt a \<notin> set (evs (retryLoop w c ctx url meth jsonData (Suc a) (Some e) r))"
        using retryLoop_attempt_index [of a w c ctx url meth jsonData "Suc a" "Some e" r] by auto
      from loopBody_Continue [OF Continue] 1 [OF True Continue] later show ?thesis
        by (auto simp: retryLoop_Continue [OF True Continue] split: if_splits)
    qed
  qed
qed

lemma doAttempt_terminal:
  assumes "EvDoTimeout j req t \<in> set (evs (doAttempt w c url meth jsonData result k))"
    and "DoTimeout w j req t = Inr resp"
    and "\<not> (200 \<le> StatusCode resp \<and> StatusCode resp < 300)"
    and "UnmarshalAPIError w (response.Body resp) = Inr apiErr"
  shows "err (doAttempt w c url meth jsonData result k) = Some (APIErr apiErr)"
proof (cases "stamp c k (newRequest url meth jsonData)")
  case (Pair x es)
  have es: "EvDoTimeout j req t \<notin> set es"
  proof -
    from Pair have "es = snd (stamp c k (newRequest url meth jsonData))" by simp
    then show ?thesis by simp
  qed
  show ?thesis
  proof (cases x)
    case (Inl e)
    with assms(1) Pair es show ?thesis by (simp add: doAttempt_def)
  next
    case (Inr req')
    with assms(1) Pair es have same: "j = k \<and> req = req' \<and> t = Timeout (options c)"
      by (auto simp: doAttempt_def split: sum.splits)
    with assms(2-4) Pair Inr show ?thesis
      by (auto simp: doAttempt_def handleResponse_def Let_def)
  qed
qed

lemma retryLoop_terminal:
  assumes "EvDoTimeout j req t \<in> set (evs (retryLoop w c ctx url meth jsonData a lastErr result))"
    and "DoTimeout w j req t = Inr resp"
    and "\<not> (200 \<le> StatusCode resp \<and> StatusCode resp < 300)"
    and "UnmarshalAPIError w (response.Body resp) = Inr apiErr"
    and "400 \<le> Status apiErr \<and> Status apiErr < 500 \<and> Status apiErr \<noteq> 429"
  shows "err (retryLoop w c ctx url meth jsonData a lastErr result) = Some (APIErr apiErr)
     \<and> attempts (evs (retryLoop w c ctx url meth jsonData a lastErr result)) = Suc j - a"
  using assms
proof (induction w c ctx url meth jsonData a lastErr result rule: retryLoop.induct)
  case (1 w c ctx url meth jsonData a lastErr result)
  note ev = "1.prems"(1) and rest = "1.prems"(2-5)
  show ?case
  proof (cases "int a \<le> MaxRetries (options c)")
    case False
    with ev show ?thesis by (simp add: retryLoop_exhausted)
  next
    case True
    show ?thesis
    proof (cases "loopBody w c ctx url meth jsonData result a")
      case (Return out)
      from ev have "EvDoTimeout j req t \<in> set (evs out)"
        by (simp add: retryLoop_Return [OF True Return])
      with loopBody_Return [OF Return]
      have here: "EvDoTimeout j req t \<in> set (evs (doAttempt w c url meth jsonData result a))"
        and out: "err out = err (doAttempt w c url meth jsonData result a)"
        and tr: "attempts (evs out) = 1"
        by (auto split: if_splits)
      from doAttempt_DoTimeout_index [OF here] have "j = a" .
      with doAttempt_terminal [OF here rest(1-3)] out tr show ?thesis
        by (simp add: retryLoop_Return [OF True Return])
    next
      case (Continue e r es)
      let ?rec = "retryLoop w c ctx url meth jsonData (Suc a) (Some e) r"
      have "EvDoTimeout j req t \<notin> set (evs (doAttempt w c url meth jsonData result a))"
      proof
        assume here: "EvDoTimeout j req t \<in> set (evs (doAttempt w c url meth jsonData result a))"
        from doAttempt_terminal [OF here rest(1-3)] loopBody_Continue [OF Continue] rest(4)
        show False by auto
      qed
      with ev loopBody_Continue [OF Continue]
      have later: "EvDoTimeout j req t \<in> set (evs ?rec)"
        by (auto simp: retryLoop_Continue [OF True Continue] split: if_splits)
      from retryLoop_send_index [OF later] have "Suc a \<le> j" .
      moreover from "1.IH" [OF True Continue later rest]
      have "err ?rec = Some (APIErr apiErr) \<and> attempts (evs ?rec) = Suc j - Suc a" .
      moreover from loopBody_Continue [OF Continue] have "attempts es = 1"
        by (auto split: if_splits)
      ultimately show ?thesis
        by (simp add: retryLoop_Continue [OF True Continue])
    qed
  qed
qed

lemma doAttempt_retryable:
  assumes auth: "\<And>req. \<exists>req'. fst (stamp c k req) = Inr req'"
    and "\<And>req t. DoTimeout w k req t = Inr resp"
    and "\<not> (200 \<le> StatusCode resp \<and> StatusCode resp < 300)"
    and "UnmarshalAPIError w (response.Body resp) = Inr apiErr"
  shows "err (doAttempt w c url meth jsonData result k) = Some (APIErr apiErr)"
proof -
  obtain req' where "fst (stamp c k (newRequest url meth jsonData)) = Inr req'"
    using auth by blast
  then obtain es where "stamp c k (newRequest url meth jsonData) = (Inr req', es)"
    by (cases "stamp c k (newRequest url meth jsonData)") simp
  with assms(2-4) show ?thesis
    by (auto simp: doAttempt_def handleResponse_def Let_def)
qed

lemma retryLoop_exhausts:
  assumes "\<And>k d. Select w k ctx d = None"
    and "\<And>k req. \<exists>req'. fst (stamp c k req) = Inr req'"
    and "\<And>k req t. DoTimeout w k req t = Inr (resp k)"
    and "\<And>k. \<not> (200 \<le> StatusCode (resp k) \<and> StatusCode (resp k) < 300)"
    and "\<And>k. UnmarshalAPIError w (response.Body (resp k)) = Inr (apiErr k)"
    and "\<And>k. Status (apiErr k) = 429 \<or> (500 \<le> Status (apiErr k) \<and> Status (apiErr k) < 600)"
  shows "attempts (evs (retryLoop w c ctx url meth jsonData a lastErr result))
           = nat (MaxRetries (options c) + 1 - int a)
     \<and> err (retryLoop w c ctx url meth jsonData a lastErr result)
           = Some (WrapError ''max retries exceeded: ''
               (if int a \<le> MaxRetries (options c)
                then Some (APIErr (apiErr (nat (MaxRetries (options c))))) else lastErr))"
  using assms
proof (induction w c ctx url meth jsonData a lastErr result rule: retryLoop.induct)
  case (1 w c ctx url meth jsonData a lastErr result)
  show ?case
  proof (cases "int a \<le> MaxRetries (options c)")
    case False
    then show ?thesis by (simp add: retryLoop_exhausted)
  next
    case True
    have att: "err (doAttempt w c url meth jsonData result a) = Some (APIErr (apiErr a))"
      using doAttempt_retryable [of c a w "resp a" "apiErr a"] "1.prems"(2-5) by blast
    show ?thesis
    proof (cases "loopBody w c ctx url meth jsonData result a")
      case (Return out)
      from loopBody_Return [OF Return] att "1.prems"(1) "1.prems"(6) [of a] show ?thesis
        by auto
    next
      case (Continue e r es)
      let ?rec = "retryLoop w c ctx url meth jsonData (Suc a) (Some e) r"
      from loopBody_Continue [OF Continue] att have e: "e = APIErr (apiErr a)" and es: "attempts es = 1"
        by (auto split: if_splits)
      from "1.IH" [OF True Continue "1.prems"]
      have rec: "attempts (evs ?rec) = nat (MaxRetries (options c) + 1 - int (Suc a))"
        "err ?rec = Some (WrapError ''max retries exceeded: ''
               (if int (Suc a) \<le> MaxRetries (options c)
                then Some (APIErr (apiErr (nat (MaxRetries (options c))))) else Some e))"
        by blast+
      have "\<not> int (Suc a) \<le> MaxRetries (options c) \<Longrightarrow> a = nat (MaxRetries (options c))"
        using True by linarith
      moreover have "0 \<le> MaxRetries (options c)"
        using True by linarith
      moreover have "nat (MaxRetries (options c) + 1 - int a)
          = Suc (nat (MaxRetries (options c) + 1 - int (Suc a)))"
        using True by linarith
      ultimately show ?thesis using rec e es True
        by (auto simp: retryLoop_Continue [OF True Continue])
    qed
  qed
qed

lemma retryLoop_cancel:
  assumes "EvNewTimer j d \<in> set (evs (retryLoop w c ctx url meth jsonData a lastErr result))"
    and "Select w j ctx d = Some e"
  shows "err (retryLoop w c ctx url meth jsonData a lastErr result) = Some (CtxErr e)
     \<and> last (evs (retryLoop w c ctx url meth jsonData a lastErr result)) = EvNewTimer j d
     \<and> (\<forall>i. EvAttempt i \<in> set (evs (retryLoop w c ctx url meth jsonData a lastErr result))
            \<longrightarrow> i < j)"
  using assms
proof (induction w c ctx url meth jsonData a lastErr result rule: retryLoop.induct)
  case (1 w c ctx url meth jsonData a lastErr result)
  note ev = "1.prems"(1) and sel = "1.prems"(2)
  show ?case
  proof (cases "int a \<le> MaxRetries (options c)")
    case False
    with ev show ?thesis by (simp add: retryLoop_exhausted)
  next
    case True
    show ?thesis
    proof (cases "loopBody w c ctx url meth jsonData result a")
      case (Return out)
      from ev have "EvNewTimer j d \<in> set (evs out)"
        by (simp add: retryLoop_Return [OF True Return])
      with loopBody_Return [OF Return] sel show ?thesis
        by (auto simp: retryLoop_Return [OF True Return] split: if_splits)
    next
      case (Continue e' r es)
      let ?rec = "retryLoop w c ctx url meth jsonData (Suc a) (Some e') r"
      from loopBody_Continue [OF Continue] sel have "EvNewTimer j d \<notin> set es"
        by (auto split: if_splits)
      with ev have later: "EvNewTimer j d \<in> set (evs ?rec)"
        by (simp add: retryLoop_Continue [OF True Continue])
      from retryLoop_timer_index [OF later] have "Suc a \<le> j" by simp
      moreover from loopBody_Continue [OF Continue]
      have "\<forall>i. EvAttempt i \<in> set es \<longrightarrow> i = a"
        by (auto split: if_splits)
      moreover from later have "evs ?rec \<noteq> []" by auto
      moreover note "1.IH" [OF True Continue later sel]
      ultimately show ?thesis
        by (auto simp: retryLoop_Continue [OF True Continue])
    qed
  qed
qed

lemma retryLoop_sleep_first:
  assumes "EvAttempt j \<in> set (evs (retryLoop w c ctx url meth jsonData a lastErr result))"
    and "0 < j"
  shows "EvNewTimer j (RetryDelay (options c) * of_nat j)
           \<in> set (takeWhile (\<lambda>ev. ev \<noteq> EvAttempt j)
                    (evs (retryLoop w c ctx url meth jsonData a lastErr result)))"
  using assms
proof (induction w c ctx url meth jsonData a lastErr result rule: retryLoop.induct)
  case (1 w c ctx url meth jsonData a lastErr result)
  note ev = "1.prems"(1) and pos = "1.prems"(2)
  obtain rest where rest: "evs (doAttempt w c url meth jsonData result a) = EvAttempt a # rest"
    "\<forall>i. EvAttempt i \<notin> set rest"
    using doAttempt_head by blast
  show ?case
  proof (cases "int a \<le> MaxRetries (options c)")
    case False
    with ev show ?thesis by (simp add: retryLoop_exhausted)
  next
    case True
    show ?thesis
    proof (cases "loopBody w c ctx url meth jsonData result a")
      case (Return out)
      from ev have "EvAttempt j \<in> set (evs out)"
        by (simp add: retryLoop_Return [OF True Return])
      with loopBody_Return [OF Return] rest pos show ?thesis
        by (auto simp: retryLoop_Return [OF True Return] split: if_splits)
    next
      case (Continue e r es)
      let ?rec = "retryLoop w c ctx url meth jsonData (Suc a) (Some e) r"
      show ?thesis
      proof (cases "j = a")
        case True
        with loopBody_Continue [OF Continue] rest pos show ?thesis
          by (auto simp: retryLoop_Continue [OF \<open>int a \<le> MaxRetries (options c)\<close> Continue]
              split: if_splits)
      next
        case False
        from loopBody_Continue [OF Continue] rest False
        have none: "\<forall>x\<in>set es. x \<noteq> EvAttempt j"
          by (auto split: if_splits)
        with ev have later: "EvAttempt j \<in> set (evs ?rec)"
          by (auto simp: retryLoop_Continue [OF True Continue])
        from none have "takeWhile (\<lambda>ev. ev \<noteq> EvAttempt j) (es @ evs ?rec)
            = es @ takeWhile (\<lambda>ev. ev \<noteq> EvAttempt j) (evs ?rec)"
          by simp
        with "1.IH" [OF True Continue later pos] show ?thesis
          by (simp add: retryLoop_Continue [OF True Continue])
      qed
    qed
  qed
qed

lemma doRequest_cases:
  obtains (marshal) b e where "body = Some b" "Marshal w b = Inl e"
      "trace (doRequest w c ctx meth path body result) = [EvMarshal]"
  | (loop) jsonData pre where "pre = [] \<or> pre = [EvMarshal]"
      "trace (doRequest w c ctx meth path body result)
         = pre @ evs (retryLoop w (c\<lparr>auth := map_option (injectContext ctx) (auth c)\<rparr>) ctx
                   (baseURL @ path) meth jsonData 0 None result)"
      "error (doRequest w c ctx meth path body result)
         = err (retryLoop w (c\<lparr>auth := map_option (injectContext ctx) (auth c)\<rparr>) ctx
                   (baseURL @ path) meth jsonData 0 None result)"
proof (cases body)
  case None
  then show ?thesis
    using loop [of "[]" "[]"] by (simp add: doRequest_def Let_def)
next
  case (Some b)
  show ?thesis
  proof (cases "Marshal w b")
    case (Inl e)
    with Some show ?thesis using marshal [of b e] by (simp add: doRequest_def Let_def)
  next
    case (Inr jsonData)
    with Some show ?thesis using loop [of "[EvMarshal]" jsonData] by (simp add: doRequest_def Let_def)
  qed
qed

lemma sint_backoff:
  fixes x :: "64 word"
  assumes "0 \<le> sint x" "sint x * int k < 2 ^ 63"
  shows "sint (x * of_nat k) = sint x * int k"
proof (cases "sint x = 0")
  case True
  then have "sint x = sint (0 :: 64 word)" by simp
  then have "x = 0" by (rule signed_word_eqI)
  with True show ?thesis by simp
next
  case False
  with assms(1) have "1 \<le> sint x" by linarith
  then have "int k \<le> sint x * int k"
    using mult_right_mono [of 1 "sint x" "int k"] by simp
  with assms(2) have k: "int k < 2 ^ 63" by linarith
  have "sint (of_nat k :: 64 word) = signed_take_bit 63 (int k)"
    by (simp add: signed_of_nat)
  also have "\<dots> = int k"
    using k by (intro signed_take_bit_int_eq_self) simp_all
  finally have 1: "sint (of_nat k :: 64 word) = int k" .
  have "sint (x * of_nat k) = signed_take_bit 63 (sint x * sint (of_nat k :: 64 word))"
    by (simp add: sint_word_mult)
  also have "\<dots> = signed_take_bit 63 (sint x * int k)"
    by (simp only: 1)
  also have "\<dots> = sint x * int k"
  proof (rule signed_take_bit_int_eq_self)
    from assms(1) have "0 \<le> sint x * int k" by simp
    moreover have "- (2 ^ 63) \<le> (0 :: int)" by simp
    ultimately show "- (2 ^ 63) \<le> sint x * int k" by (rule order_trans [rotated])
    from assms(2) show "sint x * int k < 2 ^ 63" .
  qed
  finally show ?thesis .
qed

section \<open>Evaluating the examples\<close>

lemmas eval_defs = doRequest_def retryLoop.simps loopBody_def backoff_def classify_def doAttempt_def
  stamp_def newRequest_def handleResponse_def prepend_def logf_def AcquireRequest_def NewClient_def
  defaultMaxRetries_def defaultTimeout_def defaultRetryDelay_def Second_def exampleWorld_def
  exampleError_def exampleClient_def anonymousClient_def emptyTokenClient_def contextClient_def
  dynamicClient_def exampleProvider_def baseURL_def WithToken_def Let_def

lemma exampleClient_fields:
  "auth exampleClient = Some (BearerTokenAuth ''secret'')"
  "MaxRetries (options exampleClient) = 3"
  "RetryDelay (options exampleClient) = 1000000000"
  "Timeout (options exampleClient) = 30000000000"
  "Logger (options exampleClient) = None"
  by (simp_all add: exampleClient_def NewClient_def defaultMaxRetries_def defaultTimeout_def
      defaultRetryDelay_def Second_def Let_def)

lemma cancelled_run:
  "trace cancelledRun
     = [EvMarshal, EvAttempt 0, EvAuthenticate 0 (BearerTokenAuth ''secret''),
        EvDoTimeout 0 \<lparr>RequestURI = ''https://accounts.ana.st/api/anamericano/check'',
          Method = ''POST'', request.Body = ''{}'', ContentType = Some ''application/json'',
          Authorization = Some ''Bearer secret''\<rparr> 30000000000,
        EvNewTimer 1 1000000000, EvAttempt 1, EvAuthenticate 1 (BearerTokenAuth ''secret''),
        EvDoTimeout 1 \<lparr>RequestURI = ''https://accounts.ana.st/api/anamericano/check'',
          Method = ''POST'', request.Body = ''{}'', ContentType = Some ''application/json'',
          Authorization = Some ''Bearer secret''\<rparr> 30000000000,
        EvNewTimer 2 2000000000]"
  by (simp add: cancelledRun_def eval_defs)

lemma single_uri:
  assumes "length rs = 1" and "\<forall>r\<in>set rs. P r \<and> RequestURI r = u"
  shows "map RequestURI rs = [u]"
  using assms by (cases rs) auto

lemma throttled_run:
  "map request.Body (sent (trace throttledRun)) = [''{}'', ''{}'', ''{}'', ''{}'']"
  by (simp add: throttledRun_def eval_defs)

lemma notFound_run:
  "EvDoTimeout 0 \<lparr>RequestURI = ''https://accounts.ana.st/api/anamericano/check'',
       Method = ''POST'', request.Body = ''{}'', ContentType = Some ''application/json'',
       Authorization = Some ''Bearer secret''\<rparr> 30000000000 \<in> set (trace notFoundRun)"
  by (simp add: notFoundRun_def eval_defs)

lemma expand_run:
  "EvAttempt 0 \<in> set (trace (expandRun anonymousClient Background))"
  "EvAttempt 0 \<in> set (trace (expandRun exampleClient Background))"
  "EvAttempt 0 \<in> set (trace (expandRun dynamicClient (WithToken Background ''user-token'')))"
  "EvAttempt 0 \<in> set (trace (expandRun contextClient (WithToken Background ''user-token'')))"
  by (simp_all add: expandRun_def eval_defs)

lemma example_auth:
  "auth anonymousClient = None"
  "auth exampleClient = Some (BearerTokenAuth ''secret'')"
  "auth dynamicClient = Some (DynamicTokenAuth exampleProvider None)"
  "auth contextClient = Some (ContextTokenAuth None)"
  by (simp_all add: anonymousClient_def exampleClient_def dynamicClient_def contextClient_def
      NewClient_def Let_def)

lemma example_requests:
  "sent (trace (CheckPermission okWorld exampleClient Background (Some exampleCheck)))
     = [\<lparr>RequestURI = ''https://accounts.ana.st/api/anamericano/check'', Method = ''POST'',
         request.Body = ''{}'', ContentType = Some ''application/json'',
         Authorization = Some ''Bearer secret''\<rparr>]"
  "sent (trace (WritePermission okWorld exampleClient Background (Some exampleWrite)))
     = [\<lparr>RequestURI = ''https://accounts.ana.st/api/anamericano/write'', Method = ''POST'',
         request.Body = ''{}'', ContentType = Some ''application/json'',
         Authorization = Some ''Bearer secret''\<rparr>]"
  "sent (trace (DeletePermission (okWorld :: (PermissionDeleteRequest, unit) world)
        exampleClient Background (Some exampleDelete)))
     = [\<lparr>RequestURI = ''https://accounts.ana.st/api/anamericano/delete'', Method = ''DELETE'',
         request.Body = ''{}'', ContentType = Some ''application/json'',
         Authorization = Some ''Bearer secret''\<rparr>]"
  "sent (trace (ReadPermissions (okWorld :: (unit, Permission list) world)
        exampleClient Background ''document'' ''doc1''))
     = [\<lparr>RequestURI = ''https://accounts.ana.st/api/anamericano/read/document/doc1'',
         Method = ''GET'', request.Body = [], ContentType = None,
         Authorization = Some ''Bearer secret''\<rparr>]"
  "sent (trace (ExpandPermissions (okWorld :: (unit, string list) world)
        exampleClient Background ''document'' ''doc1'' ''viewer''))
     = [\<lparr>RequestURI = ''https://accounts.ana.st/api/anamericano/expand/document/doc1/viewer'',
         Method = ''GET'', request.Body = [], ContentType = None,
         Authorization = Some ''Bearer secret''\<rparr>]"
  "sent (trace (ListObjects (okWorld :: (unit, string list) world)
        exampleClient Background ''user'' ''hanul'' ''viewer'' ''document''))
     = [\<lparr>RequestURI = ''https://accounts.ana.st/api/anamericano/list/user/hanul/viewer/document'',
         Method = ''GET'', request.Body = [], ContentType = None,
         Authorization = Some ''Bearer secret''\<rparr>]"
  by (simp_all add: CheckPermission_def WritePermission_def DeletePermission_def
      ReadPermissions_def ExpandPermissions_def ListObjects_def
      PermissionCheckRequest_Validate_def PermissionWriteRequest_Validate_def
      PermissionDeleteRequest_Validate_def exampleCheck_def exampleWrite_def exampleDelete_def
      eval_defs)

section \<open>The claims\<close>

text \<open>
  Claim C1 says that an authentication failure ends the call at once. The code does
  otherwise: the per-attempt function returns the failure to the loop, which takes every
  error that is not an \<^verbatim>\<open>*APIError\<close> for a retryable one. With an empty bearer token
  and the default options all four attempts are made, each failing in the authenticator,
  and the failure comes back wrapped in the retry-exhaustion error.
\<close>

theorem auth_failure_is_retried:
  "error (CheckPermission okWorld emptyTokenClient Background (Some exampleCheck))
     = Some (WrapError ''max retries exceeded: ''
         (Some (WrapError ''authentication failed: '' (Some (ErrorString ''bearer token is empty'')))))
   \<and> attempts (trace (CheckPermission okWorld emptyTokenClient Background (Some exampleCheck))) = 4
   \<and> sent (trace (CheckPermission okWorld emptyTokenClient Background (Some exampleCheck))) = []"
  by (simp add: CheckPermission_def PermissionCheckRequest_Validate_def exampleCheck_def eval_defs)

text \<open>
  Claim C2. When the first attempt reaches the transport and the answer is a non-2xx
  response whose body decodes to an \<^verbatim>\<open>APIError\<close> with a status in [400,500) other than
  429, \<^verbatim>\<open>doRequest\<close> returns that \<^verbatim>\<open>APIError\<close> itself and has made exactly one
  attempt.
\<close>

theorem terminal_client_error_not_retried:
  assumes "EvDoTimeout 0 req t \<in> set (trace (doRequest w c ctx meth path body result))"
    and "DoTimeout w 0 req t = Inr resp"
    and "\<not> (200 \<le> StatusCode resp \<and> StatusCode resp < 300)"
    and "UnmarshalAPIError w (response.Body resp) = Inr apiErr"
    and "400 \<le> Status apiErr \<and> Status apiErr < 500 \<and> Status apiErr \<noteq> 429"
  shows "error (doRequest w c ctx meth path body result) = Some (APIErr apiErr)
     \<and> attempts (trace (doRequest w c ctx meth path body result)) = 1"
proof -
  let ?c = "c\<lparr>auth := map_option (injectContext ctx) (auth c)\<rparr>"
  obtain jsonData where
    tr: "trace (doRequest w c ctx meth path body result)
           = evs (retryLoop w ?c ctx (baseURL @ path) meth jsonData 0 None result)
         \<or> trace (doRequest w c ctx meth path body result)
           = EvMarshal # evs (retryLoop w ?c ctx (baseURL @ path) meth jsonData 0 None result)"
    and er: "error (doRequest w c ctx meth path body result)
           = err (retryLoop w ?c ctx (baseURL @ path) meth jsonData 0 None result)"
    using assms(1) by (auto simp: doRequest_def Let_def split: option.splits sum.splits)
  from tr assms(1)
  have "EvDoTimeout 0 req t \<in> set (evs (retryLoop w ?c ctx (baseURL @ path) meth jsonData 0 None result))"
    by auto
  from retryLoop_terminal [OF this assms(2-5)] tr er show ?thesis
    by auto
qed

text \<open>A transport that always answers 404 with a well-formed error body.\<close>

theorem terminal_client_error_not_retried_witness:
  "error notFoundRun = Some (APIErr (exampleError 404)) \<and> attempts (trace notFoundRun) = 1"
proof -
  let ?w = "notFoundWorld :: (PermissionCheckRequest, PermissionCheckResponse) world"
  let ?resp = "\<lparr>StatusCode = 404, response.Body = ''no such object''\<rparr>"
  have answer: "DoTimeout ?w 0 req t = Inr ?resp" for req t
    by (simp add: exampleWorld_def)
  have status: "\<not> (200 \<le> StatusCode ?resp \<and> StatusCode ?resp < 300)"
    by simp
  have decoded: "UnmarshalAPIError ?w (response.Body ?resp) = Inr (exampleError 404)"
    by (simp add: exampleWorld_def)
  have terminal: "400 \<le> Status (exampleError 404) \<and> Status (exampleError 404) < 500
      \<and> Status (exampleError 404) \<noteq> 429"
    by (simp add: exampleError_def)
  from terminal_client_error_not_retried
    [OF notFound_run [unfolded notFoundRun_def] answer status decoded terminal]
  show ?thesis
    by (simp add: notFoundRun_def)
qed

text \<open>
  Claim C3. With a retry count that is not negative, a body that serializes, an
  authenticator that succeeds, no cancellation, and a transport that always answers 429 or
  5xx with a body that decodes to an \<^verbatim>\<open>APIError\<close> of that status, \<^verbatim>\<open>doRequest\<close> makes
  exactly MaxRetries + 1 attempts and returns the retry-exhaustion error that wraps the
  \<^verbatim>\<open>APIError\<close> decoded on the last attempt.
\<close>

theorem retries_exhausted_after_budget:
  assumes "0 \<le> MaxRetries (options c)"
    and "\<And>b. body = Some b \<Longrightarrow> \<exists>jsonData. Marshal w b = Inr jsonData"
    and "\<And>k d. Select w k ctx d = None"
    and "\<And>a k req. auth c = Some a \<Longrightarrow>
           \<exists>req'. AuthenticateFastHTTP k (injectContext ctx a) req = Inr req'"
    and "\<And>k req t. DoTimeout w k req t = Inr (resp k)"
    and "\<And>k. StatusCode (resp k) = 429 \<or> (500 \<le> StatusCode (resp k) \<and> StatusCode (resp k) < 600)"
    and "\<And>k. UnmarshalAPIError w (response.Body (resp k)) = Inr (apiErr k)"
    and "\<And>k. Status (apiErr k) = StatusCode (resp k)"
  shows "int (attempts (trace (doRequest w c ctx meth path body result))) = MaxRetries (options c) + 1
     \<and> error (doRequest w c ctx meth path body result)
         = Some (WrapError ''max retries exceeded: ''
             (Some (APIErr (apiErr (nat (MaxRetries (options c)))))))"
proof -
  let ?c = "c\<lparr>auth := map_option (injectContext ctx) (auth c)\<rparr>"
  have stamped: "\<And>k req. \<exists>req'. fst (stamp ?c k req) = Inr req'"
    using assms(4) by (cases "auth c") (auto simp: stamp_def)
  have status: "\<not> (200 \<le> StatusCode (resp k) \<and> StatusCode (resp k) < 300)" for k
    using assms(6) [of k] by linarith
  have retry: "Status (apiErr k) = 429 \<or> (500 \<le> Status (apiErr k) \<and> Status (apiErr k) < 600)" for k
    using assms(6) [of k] assms(8) [of k] by simp
  have loop: "\<And>jsonData. attempts (evs (retryLoop w ?c ctx (baseURL @ path) meth jsonData 0 None result))
           = nat (MaxRetries (options c) + 1)
     \<and> err (retryLoop w ?c ctx (baseURL @ path) meth jsonData 0 None result)
           = Some (WrapError ''max retries exceeded: ''
               (Some (APIErr (apiErr (nat (MaxRetries (options c)))))))"
    using retryLoop_exhausts [of w ctx ?c resp apiErr "baseURL @ path" meth _ 0 None result,
        OF assms(3) stamped assms(5) status assms(7) retry] assms(1)
    by simp
  show ?thesis
  proof (cases body)
    case None
    with loop [of "[]"] assms(1) show ?thesis
      by (simp add: doRequest_def Let_def)
  next
    case (Some b)
    with assms(2) obtain jsonData where "Marshal w b = Inr jsonData" by blast
    with Some loop [of jsonData] assms(1) show ?thesis
      by (simp add: doRequest_def Let_def)
  qed
qed

text \<open>A transport that always answers 429, with the default three retries.\<close>

theorem retries_exhausted_after_budget_witness:
  "int (attempts (trace throttledRun)) = 3 + 1
   \<and> error throttledRun = Some (WrapError ''max retries exceeded: '' (Some (APIErr (exampleError 429))))"
proof -
  let ?w = "throttledWorld :: (PermissionCheckRequest, PermissionCheckResponse) world"
  let ?resp = "\<lambda>k::nat. \<lparr>StatusCode = 429, response.Body = ''slow down''\<rparr>"
  let ?apiErr = "\<lambda>k::nat. exampleError 429"
  have budget: "0 \<le> MaxRetries (options exampleClient)"
    by (simp add: exampleClient_fields)
  have marshal: "\<And>b. Some exampleCheck = Some b \<Longrightarrow> \<exists>jsonData. Marshal ?w b = Inr jsonData"
    by (simp add: exampleWorld_def)
  have select: "\<And>k d. Select ?w k Background d = None"
    by (simp add: exampleWorld_def)
  have stamped: "\<And>a k req. auth exampleClient = Some a \<Longrightarrow>
           \<exists>req'. AuthenticateFastHTTP k (injectContext Background a) req = Inr req'"
    by (auto simp: exampleClient_fields)
  have transport: "\<And>k req t. DoTimeout ?w k req t = Inr (?resp k)"
    by (simp add: exampleWorld_def)
  have status: "\<And>k. StatusCode (?resp k) = 429
       \<or> (500 \<le> StatusCode (?resp k) \<and> StatusCode (?resp k) < 600)"
    by simp
  have decoded: "\<And>k. UnmarshalAPIError ?w (response.Body (?resp k)) = Inr (?apiErr k)"
    by (simp add: exampleWorld_def)
  have wellformed: "\<And>k. Status (?apiErr k) = StatusCode (?resp k)"
    by (simp add: exampleError_def)
  from retries_exhausted_after_budget [of exampleClient "Some exampleCheck" ?w Background ?resp
      ?apiErr "''POST''" "''/api/anamericano/check''"
      "Some \<lparr>Allowed = False, PermissionCheckResponse.Message = []\<rparr>",
      OF budget marshal select stamped transport status decoded wellformed]
  show ?thesis
    by (simp add: throttledRun_def exampleClient_fields)
qed

text \<open>
  Claim C4 says that a success body that does not deserialize ends the call at once. The
  code does otherwise, for the reason given at C1: the deserialization error is retried
  on every attempt and comes back wrapped in the retry-exhaustion error.
\<close>

theorem undecodable_success_body_is_retried:
  "error (ExpandPermissions (garbledWorld :: (unit, string list) world) exampleClient Background
            ''document'' ''doc1'' ''viewer'')
     = Some (WrapError ''max retries exceeded: ''
         (Some (WrapError ''failed to unmarshal response: '' (Some (ErrorString ''invalid character'')))))
   \<and> attempts (trace (ExpandPermissions (garbledWorld :: (unit, string list) world) exampleClient
            Background ''document'' ''doc1'' ''viewer'')) = 4"
  by (simp add: ExpandPermissions_def eval_defs)

text \<open>
  Claim C5 says that a non-2xx response whose body is not a structured error ends the call
  at once with an error giving the raw status and body. The code builds that error, but
  then retries it, for the reason given at C1, and returns it wrapped in the
  retry-exhaustion error.
\<close>

theorem malformed_error_body_is_retried:
  "error (ExpandPermissions (gatewayWorld :: (unit, string list) world) exampleClient Background
            ''document'' ''doc1'' ''viewer'')
     = Some (WrapError ''max retries exceeded: '' (Some (ErrorString ''HTTP 502: Bad Gateway'')))
   \<and> attempts (trace (ExpandPermissions (gatewayWorld :: (unit, string list) world) exampleClient
            Background ''document'' ''doc1'' ''viewer'')) = 4"
  by (simp add: ExpandPermissions_def eval_defs Itoa_def)

text \<open>
  Claim C6. Every backoff timer is the one of an attempt k > 0 and runs for
  \<^verbatim>\<open>RetryDelay * time.Duration(k)\<close> (which is RetryDelay times k in nanoseconds whenever
  that fits a \<^verbatim>\<open>Duration\<close>); every attempt k > 0 has this timer before it; and when the
  context finishes during the timer before attempt k, \<^verbatim>\<open>doRequest\<close> returns the context's
  error, the timer is the last thing that happened, and no attempt k or later was made.
\<close>

theorem backoff_is_linear_and_cancellable:
  "(\<forall>k d. EvNewTimer k d \<in> set (trace (doRequest w c ctx meth path body result))
       \<longrightarrow> 0 < k \<and> d = RetryDelay (options c) * of_nat k
           \<and> (0 \<le> sint (RetryDelay (options c))
                \<and> sint (RetryDelay (options c)) * int k < 2 ^ 63
              \<longrightarrow> sint d = sint (RetryDelay (options c)) * int k))
   \<and> (\<forall>k. 0 < k \<and> EvAttempt k \<in> set (trace (doRequest w c ctx meth path body result))
       \<longrightarrow> EvNewTimer k (RetryDelay (options c) * of_nat k)
             \<in> set (takeWhile (\<lambda>ev. ev \<noteq> EvAttempt k)
                      (trace (doRequest w c ctx meth path body result))))
   \<and> (\<forall>k d e. EvNewTimer k d \<in> set (trace (doRequest w c ctx meth path body result))
           \<and> Select w k ctx d = Some e
       \<longrightarrow> error (doRequest w c ctx meth path body result) = Some (CtxErr e)
           \<and> last (trace (doRequest w c ctx meth path body result)) = EvNewTimer k d
           \<and> (\<forall>i. EvAttempt i \<in> set (trace (doRequest w c ctx meth path body result)) \<longrightarrow> i < k))"
proof (cases rule: doRequest_cases [of body w c ctx meth path result])
  case (marshal b e)
  then show ?thesis by simp
next
  case (loop jsonData pre)
  let ?c = "c\<lparr>auth := map_option (injectContext ctx) (auth c)\<rparr>"
  let ?out = "retryLoop w ?c ctx (baseURL @ path) meth jsonData 0 None result"
  have timers: "EvNewTimer k d \<in> set (pre @ evs ?out) \<longleftrightarrow> EvNewTimer k d \<in> set (evs ?out)" for k d
    using loop(1) by auto
  have atts: "EvAttempt k \<in> set (pre @ evs ?out) \<longleftrightarrow> EvAttempt k \<in> set (evs ?out)" for k
    using loop(1) by auto
  have 1: "0 < k \<and> d = RetryDelay (options c) * of_nat k
           \<and> (0 \<le> sint (RetryDelay (options c))
                \<and> sint (RetryDelay (options c)) * int k < 2 ^ 63
              \<longrightarrow> sint d = sint (RetryDelay (options c)) * int k)"
    if "EvNewTimer k d \<in> set (evs ?out)" for k d
    using retryLoop_timer_index [OF that] sint_backoff [of "RetryDelay (options c)" k] by simp
  have 2: "EvNewTimer k (RetryDelay (options c) * of_nat k)
             \<in> set (takeWhile (\<lambda>ev. ev \<noteq> EvAttempt k) (pre @ evs ?out))"
    if "0 < k" "EvAttempt k \<in> set (evs ?out)" for k
    using retryLoop_sleep_first [OF that(2) that(1)] loop(1) by auto
  have 3: "err ?out = Some (CtxErr e) \<and> last (pre @ evs ?out) = EvNewTimer k d
           \<and> (\<forall>i. EvAttempt i \<in> set (evs ?out) \<longrightarrow> i < k)"
    if "EvNewTimer k d \<in> set (evs ?out)" "Select w k ctx d = Some e" for k d e
  proof -
    from that(1) have "evs ?out \<noteq> []" by auto
    then have "last (pre @ evs ?out) = last (evs ?out)" by simp
    with retryLoop_cancel [OF that] show ?thesis by simp
  qed
  show ?thesis
    unfolding loop(2) loop(3) timers atts using 1 2 3 by blast
qed

text \<open>A context cancelled during the backoff before attempt 2.\<close>

theorem backoff_is_linear_and_cancellable_witness:
  "sint (2000000000 :: Duration) = sint (RetryDelay (options exampleClient)) * int 2
   \<and> EvNewTimer 1 (RetryDelay (options exampleClient) * of_nat 1)
       \<in> set (takeWhile (\<lambda>ev. ev \<noteq> EvAttempt 1) (trace cancelledRun))
   \<and> error cancelledRun = Some (CtxErr Canceled)
   \<and> last (trace cancelledRun) = EvNewTimer 2 2000000000"
proof -
  note T = backoff_is_linear_and_cancellable
    [where w = "cancelledWorld :: (PermissionCheckRequest, PermissionCheckResponse) world" and c = exampleClient
       and ctx = Background and meth = "''POST''" and path = "''/api/anamericano/check''"
       and body = "Some exampleCheck"
       and result = "Some \<lparr>Allowed = False, PermissionCheckResponse.Message = []\<rparr>", folded cancelledRun_def]
  have timer: "EvNewTimer 2 2000000000 \<in> set (trace cancelledRun)"
    by (simp add: cancelled_run)
  have attempt: "0 < (1 :: nat) \<and> EvAttempt 1 \<in> set (trace cancelledRun)"
    by (simp add: cancelled_run)
  have finished: "Select (cancelledWorld :: (PermissionCheckRequest, PermissionCheckResponse) world) 2 Background 2000000000
      = Some Canceled"
    by (simp add: exampleWorld_def)
  have fits: "0 \<le> sint (RetryDelay (options exampleClient))
      \<and> sint (RetryDelay (options exampleClient)) * int 2 < 2 ^ 63"
    by (simp add: exampleClient_fields)
  from T timer fits
  have "sint (2000000000 :: Duration) = sint (RetryDelay (options exampleClient)) * int 2"
    by blast
  moreover from T attempt
  have "EvNewTimer 1 (RetryDelay (options exampleClient) * of_nat 1)
       \<in> set (takeWhile (\<lambda>ev. ev \<noteq> EvAttempt 1) (trace cancelledRun))"
    by blast
  moreover from T timer finished
  have "error cancelledRun = Some (CtxErr Canceled)
       \<and> last (trace cancelledRun) = EvNewTimer 2 2000000000"
    by blast
  ultimately show ?thesis by simp
qed

text \<open>
  Claim C7. When the body is not nil, \<^verbatim>\<open>doRequest\<close> serializes it exactly once and
  before anything else (the trace starts with the one \<open>EvMarshal\<close>); every request handed
  to the transport, on whichever attempt, carries the same body bytes, namely the bytes the
  serialization returned.
\<close>

theorem body_serialized_once:
  assumes "body = Some b"
  shows "hd (trace (doRequest w c ctx meth path body result)) = EvMarshal
     \<and> count_list (trace (doRequest w c ctx meth path body result)) EvMarshal = 1
     \<and> (\<forall>r\<in>set (sent (trace (doRequest w c ctx meth path body result))).
          \<forall>r'\<in>set (sent (trace (doRequest w c ctx meth path body result))).
            request.Body r = request.Body r')
     \<and> (\<forall>jsonData. Marshal w b = Inr jsonData \<longrightarrow>
          (\<forall>r\<in>set (sent (trace (doRequest w c ctx meth path body result))).
             request.Body r = jsonData))"
proof (cases "Marshal w b")
  case (Inl e)
  with assms show ?thesis by (simp add: doRequest_def Let_def)
next
  case (Inr jsonData)
  let ?out = "retryLoop w (c\<lparr>auth := map_option (injectContext ctx) (auth c)\<rparr>) ctx
                (baseURL @ path) meth jsonData 0 None result"
  have tr: "trace (doRequest w c ctx meth path body result) = EvMarshal # evs ?out"
    using assms Inr by (simp add: doRequest_def Let_def)
  have "EvMarshal \<notin> set (evs ?out)" by (rule retryLoop_no_marshal)
  then have cnt: "count_list (evs ?out) EvMarshal = 0" by (simp add: count_list_0_iff)
  have bodies: "\<forall>r\<in>set (sent (evs ?out)). request.Body r = jsonData"
    using retryLoop_sent by blast
  from tr cnt bodies Inr show ?thesis by simp
qed

text \<open>Four attempts against a transport that always answers 429: four times the same bytes.\<close>

theorem body_serialized_once_witness:
  "hd (trace throttledRun) = EvMarshal
   \<and> count_list (trace throttledRun) EvMarshal = 1
   \<and> length (sent (trace throttledRun)) = 4
   \<and> request.Body (sent (trace throttledRun) ! 1) = request.Body (sent (trace throttledRun) ! 0)
   \<and> request.Body (sent (trace throttledRun) ! 3) = ''{}''"
proof -
  note T = body_serialized_once
    [where w = "throttledWorld :: (PermissionCheckRequest, PermissionCheckResponse) world" and c = exampleClient
       and ctx = Background and meth = "''POST''" and path = "''/api/anamericano/check''"
       and body = "Some exampleCheck" and b = exampleCheck
       and result = "Some \<lparr>Allowed = False, PermissionCheckResponse.Message = []\<rparr>", OF refl,
     folded throttledRun_def]
  have "length (map request.Body (sent (trace throttledRun))) = 4"
    by (simp only: throttled_run) simp
  then have len: "length (sent (trace throttledRun)) = 4"
    by simp
  then have mem: "sent (trace throttledRun) ! 0 \<in> set (sent (trace throttledRun))"
    "sent (trace throttledRun) ! 1 \<in> set (sent (trace throttledRun))"
    "sent (trace throttledRun) ! 3 \<in> set (sent (trace throttledRun))"
    by simp_all
  have bytes: "Marshal (throttledWorld :: (PermissionCheckRequest, PermissionCheckResponse) world) exampleCheck = Inr ''{}''"
    by (simp add: exampleWorld_def)
  from T mem bytes
  have "request.Body (sent (trace throttledRun) ! 1) = request.Body (sent (trace throttledRun) ! 0)"
    "request.Body (sent (trace throttledRun) ! 3) = ''{}''"
    by blast+
  with T len show ?thesis by simp
qed

text \<open>
  Claim C8, as amended. On every attempt the authenticator of the client, if it has one,
  is consulted exactly once and no other is; a \<open>DynamicTokenAuth\<close> or a
  \<open>ContextTokenAuth\<close> holds the caller's context when it is consulted. A client whose
  authenticator is nil consults none.
\<close>

theorem authenticator_consulted_once_per_attempt:
  assumes "EvAttempt k \<in> set (trace (doRequest w c ctx meth path body result))"
  shows "(auth c = None \<longrightarrow> stamps k (trace (doRequest w c ctx meth path body result)) = [])
     \<and> (\<forall>a. auth c = Some a
          \<longrightarrow> stamps k (trace (doRequest w c ctx meth path body result)) = [injectContext ctx a])
     \<and> (\<forall>Provider old. auth c = Some (DynamicTokenAuth Provider old)
          \<longrightarrow> stamps k (trace (doRequest w c ctx meth path body result))
                = [DynamicTokenAuth Provider (Some ctx)])
     \<and> (\<forall>old. auth c = Some (ContextTokenAuth old)
          \<longrightarrow> stamps k (trace (doRequest w c ctx meth path body result))
                = [ContextTokenAuth (Some ctx)])"
proof (cases rule: doRequest_cases [of body w c ctx meth path result])
  case (marshal b e)
  with assms show ?thesis by simp
next
  case (loop jsonData pre)
  let ?c = "c\<lparr>auth := map_option (injectContext ctx) (auth c)\<rparr>"
  let ?out = "retryLoop w ?c ctx (baseURL @ path) meth jsonData 0 None result"
  from assms loop(1,2) have att: "EvAttempt k \<in> set (evs ?out)" by auto
  from loop(1,2) have "stamps k (trace (doRequest w c ctx meth path body result)) = stamps k (evs ?out)"
    by auto
  also have "\<dots> = (case auth ?c of None \<Rightarrow> [] | Some x \<Rightarrow> [x])"
    using retryLoop_stamps [of k w ?c ctx "baseURL @ path" meth jsonData 0 None result] att by simp
  finally show ?thesis
    by (auto split: option.splits)
qed

text \<open>One attempt each with no authenticator, a static one and the two that take a context.\<close>

theorem authenticator_consulted_once_per_attempt_witness:
  "stamps 0 (trace (expandRun anonymousClient Background)) = []
   \<and> stamps 0 (trace (expandRun exampleClient Background)) = [BearerTokenAuth ''secret'']
   \<and> stamps 0 (trace (expandRun dynamicClient (WithToken Background ''user-token'')))
      = [DynamicTokenAuth exampleProvider (Some (WithToken Background ''user-token''))]
   \<and> stamps 0 (trace (expandRun contextClient (WithToken Background ''user-token'')))
      = [ContextTokenAuth (Some (WithToken Background ''user-token''))]"
proof -
  from authenticator_consulted_once_per_attempt
      [OF expand_run(1) [unfolded expandRun_def], folded expandRun_def] example_auth(1)
  have "stamps 0 (trace (expandRun anonymousClient Background)) = []"
    by blast
  moreover from authenticator_consulted_once_per_attempt
      [OF expand_run(2) [unfolded expandRun_def], folded expandRun_def] example_auth(2)
  have "stamps 0 (trace (expandRun exampleClient Background))
      = [injectContext Background (BearerTokenAuth ''secret'')]"
    by blast
  moreover from authenticator_consulted_once_per_attempt
      [OF expand_run(3) [unfolded expandRun_def], folded expandRun_def] example_auth(3)
  have "stamps 0 (trace (expandRun dynamicClient (WithToken Background ''user-token'')))
      = [DynamicTokenAuth exampleProvider (Some (WithToken Background ''user-token''))]"
    by blast
  moreover from authenticator_consulted_once_per_attempt
      [OF expand_run(4) [unfolded expandRun_def], folded expandRun_def] example_auth(4)
  have "stamps 0 (trace (expandRun contextClient (WithToken Background ''user-token'')))
      = [ContextTokenAuth (Some (WithToken Background ''user-token''))]"
    by blast
  ultimately show ?thesis by simp
qed

text \<open>
  Claim C8 as stated fails: a client made with a nil authenticator makes its attempt
  without consulting any.
\<close>

theorem nil_authenticator_counterexample:
  "attempts (trace (expandRun anonymousClient Background)) = 1
   \<and> stamps 0 (trace (expandRun anonymousClient Background)) = []
   \<and> error (expandRun anonymousClient Background) = None"
  by (simp add: expandRun_def eval_defs)

text \<open>
  Claim C9, as amended. Every request an operation hands to the transport has the method of
  the interface table and the base URL followed by the path under \<^verbatim>\<open>/api/anamericano/\<close>.
\<close>

theorem operations_paths:
  "(\<forall>r\<in>set (sent (trace (CheckPermission wc c ctx checkReq))).
      Method r = ''POST'' \<and> RequestURI r = baseURL @ ''/api/anamericano/check'')
   \<and> (\<forall>r\<in>set (sent (trace (WritePermission ww c ctx writeReq))).
      Method r = ''POST'' \<and> RequestURI r = baseURL @ ''/api/anamericano/write'')
   \<and> (\<forall>r\<in>set (sent (trace (DeletePermission wd c ctx deleteReq))).
      Method r = ''DELETE'' \<and> RequestURI r = baseURL @ ''/api/anamericano/delete'')
   \<and> (\<forall>r\<in>set (sent (trace (ReadPermissions wr c ctx namespace objectID))).
      Method r = ''GET''
      \<and> RequestURI r = baseURL @ ''/api/anamericano/read/'' @ namespace @ ''/'' @ objectID)
   \<and> (\<forall>r\<in>set (sent (trace (ExpandPermissions we c ctx namespace objectID relation))).
      Method r = ''GET''
      \<and> RequestURI r = baseURL @ ''/api/anamericano/expand/'' @ namespace @ ''/'' @ objectID
                         @ ''/'' @ relation)
   \<and> (\<forall>r\<in>set (sent (trace (ListObjects wl c ctx subjectType subjectID relation namespace))).
      Method r = ''GET''
      \<and> RequestURI r = baseURL @ ''/api/anamericano/list/'' @ subjectType @ ''/'' @ subjectID
                         @ ''/'' @ relation @ ''/'' @ namespace)"
proof -
  have 1: "\<forall>r\<in>set (sent (trace (CheckPermission wc c ctx checkReq))).
      Method r = ''POST'' \<and> RequestURI r = baseURL @ ''/api/anamericano/check''"
    by (auto simp: CheckPermission_def Let_def split: option.splits dest: doRequest_sent)
  have 2: "\<forall>r\<in>set (sent (trace (WritePermission ww c ctx writeReq))).
      Method r = ''POST'' \<and> RequestURI r = baseURL @ ''/api/anamericano/write''"
    by (auto simp: WritePermission_def Let_def split: option.splits dest: doRequest_sent)
  have 3: "\<forall>r\<in>set (sent (trace (DeletePermission wd c ctx deleteReq))).
      Method r = ''DELETE'' \<and> RequestURI r = baseURL @ ''/api/anamericano/delete''"
    by (auto simp: DeletePermission_def Let_def split: option.splits dest: doRequest_sent)
  have 4: "\<forall>r\<in>set (sent (trace (ReadPermissions wr c ctx namespace objectID))).
      Method r = ''GET''
      \<and> RequestURI r = baseURL @ ''/api/anamericano/read/'' @ namespace @ ''/'' @ objectID"
    by (auto simp: ReadPermissions_def Let_def dest: doRequest_sent)
  have 5: "\<forall>r\<in>set (sent (trace (ExpandPermissions we c ctx namespace objectID relation))).
      Method r = ''GET''
      \<and> RequestURI r = baseURL @ ''/api/anamericano/expand/'' @ namespace @ ''/'' @ objectID
                         @ ''/'' @ relation"
    by (auto simp: ExpandPermissions_def Let_def dest: doRequest_sent)
  have 6: "\<forall>r\<in>set (sent (trace (ListObjects wl c ctx subjectType subjectID relation namespace))).
      Method r = ''GET''
      \<and> RequestURI r = baseURL @ ''/api/anamericano/list/'' @ subjectType @ ''/'' @ subjectID
                         @ ''/'' @ relation @ ''/'' @ namespace"
    by (auto simp: ListObjects_def Let_def dest: doRequest_sent)
  from 1 2 3 4 5 6 show ?thesis by blast
qed

text \<open>One accepted call of each operation.\<close>

theorem operations_paths_witness:
  "map RequestURI (sent (trace (CheckPermission okWorld exampleClient Background (Some exampleCheck))))
     = [''https://accounts.ana.st/api/anamericano/check'']
   \<and> map RequestURI (sent (trace (WritePermission okWorld exampleClient Background (Some exampleWrite))))
     = [''https://accounts.ana.st/api/anamericano/write'']
   \<and> map RequestURI (sent (trace (DeletePermission (okWorld :: (PermissionDeleteRequest, unit) world)
        exampleClient Background (Some exampleDelete))))
     = [''https://accounts.ana.st/api/anamericano/delete'']
   \<and> map RequestURI (sent (trace (ReadPermissions (okWorld :: (unit, Permission list) world)
        exampleClient Background ''document'' ''doc1'')))
     = [''https://accounts.ana.st/api/anamericano/read/document/doc1'']
   \<and> map RequestURI (sent (trace (ExpandPermissions (okWorld :: (unit, string list) world)
        exampleClient Background ''document'' ''doc1'' ''viewer'')))
     = [''https://accounts.ana.st/api/anamericano/expand/document/doc1/viewer'']
   \<and> map RequestURI (sent (trace (ListObjects (okWorld :: (unit, string list) world)
        exampleClient Background ''user'' ''hanul'' ''viewer'' ''document'')))
     = [''https://accounts.ana.st/api/anamericano/list/user/hanul/viewer/document'']"
proof -
  note T = operations_paths
    [where wc = okWorld and ww = okWorld
       and wd = "okWorld :: (PermissionDeleteRequest, unit) world"
       and wr = "okWorld :: (unit, Permission list) world"
       and we = "okWorld :: (unit, string list) world"
       and wl = "okWorld :: (unit, string list) world"
       and c = exampleClient and ctx = Background
       and checkReq = "Some exampleCheck" and writeReq = "Some exampleWrite"
       and deleteReq = "Some exampleDelete"
       and namespace = "''document''" and objectID = "''doc1''" and relation = "''viewer''"
       and subjectType = "''user''" and subjectID = "''hanul''"]
  have "map RequestURI (sent (trace (CheckPermission okWorld exampleClient Background
        (Some exampleCheck)))) = [baseURL @ ''/api/anamericano/check'']"
    by (rule single_uri [OF _ T [THEN conjunct1]]) (simp add: example_requests)
  moreover have "map RequestURI (sent (trace (WritePermission okWorld exampleClient Background
        (Some exampleWrite)))) = [baseURL @ ''/api/anamericano/write'']"
    by (rule single_uri [OF _ T [THEN conjunct2, THEN conjunct1]]) (simp add: example_requests)
  moreover have "map RequestURI (sent (trace (DeletePermission
        (okWorld :: (PermissionDeleteRequest, unit) world) exampleClient Background
        (Some exampleDelete)))) = [baseURL @ ''/api/anamericano/delete'']"
    by (rule single_uri [OF _ T [THEN conjunct2, THEN conjunct2, THEN conjunct1]])
      (simp add: example_requests)
  moreover have "map RequestURI (sent (trace (ReadPermissions
        (okWorld :: (unit, Permission list) world) exampleClient Background ''document'' ''doc1'')))
      = [baseURL @ ''/api/anamericano/read/'' @ ''document'' @ ''/'' @ ''doc1'']"
    by (rule single_uri [OF _ T [THEN conjunct2, THEN conjunct2, THEN conjunct2, THEN conjunct1]])
      (simp add: example_requests)
  moreover have "map RequestURI (sent (trace (ExpandPermissions
        (okWorld :: (unit, string list) world) exampleClient Background ''document'' ''doc1''
        ''viewer'')))
      = [baseURL @ ''/api/anamericano/expand/'' @ ''document'' @ ''/'' @ ''doc1'' @ ''/'' @ ''viewer'']"
    by (rule single_uri [OF _ T [THEN conjunct2, THEN conjunct2, THEN conjunct2, THEN conjunct2,
          THEN conjunct1]])
      (simp add: example_requests)
  moreover have "map RequestURI (sent (trace (ListObjects
        (okWorld :: (unit, string list) world) exampleClient Background ''user'' ''hanul''
        ''viewer'' ''document'')))
      = [baseURL @ ''/api/anamericano/list/'' @ ''user'' @ ''/'' @ ''hanul'' @ ''/'' @ ''viewer''
           @ ''/'' @ ''document'']"
    by (rule single_uri [OF _ T [THEN conjunct2, THEN conjunct2, THEN conjunct2, THEN conjunct2,
          THEN conjunct2]])
      (simp add: example_requests)
  ultimately show ?thesis
    by (simp add: baseURL_def)
qed

text \<open>
  Claim C9 as stated fails: a permission check is sent to \<^verbatim>\<open>/api/anamericano/check\<close>,
  not to \<^verbatim>\<open>/api/permissions/check\<close>.
\<close>

theorem check_path_counterexample:
  "map RequestURI (sent (trace (CheckPermission
      (exampleWorld \<lparr>StatusCode = 200, response.Body = []\<rparr> (Inl (ErrorString ''EOF'')) None None)
      (NewClient (Some (BearerTokenAuth ''secret'')) None) Background (Some exampleCheck))))
     = [''https://accounts.ana.st/api/anamericano/check'']
   \<and> ''https://accounts.ana.st/api/anamericano/check'' \<noteq> baseURL @ ''/api/permissions/check''"
  by (simp add: CheckPermission_def PermissionCheckRequest_Validate_def exampleCheck_def eval_defs)

text \<open>
  Claim C10. An operation whose request is nil or has an empty required field returns a
  validation error with an empty trace: nothing was serialized, no authenticator was
  consulted, no request was sent, and the client is as it was.
\<close>

theorem validation_before_network:
  "((checkReq = None \<or> (\<exists>r. checkReq = Some r \<and> (PermissionCheckRequest.SubjectType r = []
        \<or> PermissionCheckRequest.SubjectID r = [] \<or> PermissionCheckRequest.Relation r = []
        \<or> PermissionCheckRequest.ObjectNamespace r = [] \<or> PermissionCheckRequest.ObjectID r = [])))
     \<longrightarrow> trace (CheckPermission wc c ctx checkReq) = [] \<and> client (CheckPermission wc c ctx checkReq) = c
         \<and> ret (CheckPermission wc c ctx checkReq) = None
         \<and> (\<exists>msg. error (CheckPermission wc c ctx checkReq) = Some (ErrorString msg)
               \<or> error (CheckPermission wc c ctx checkReq)
                   = Some (WrapError ''invalid request: '' (Some (ErrorString msg)))))
   \<and> ((writeReq = None \<or> (\<exists>r. writeReq = Some r \<and> (PermissionWriteRequest.ObjectNamespace r = []
        \<or> PermissionWriteRequest.ObjectID r = [] \<or> PermissionWriteRequest.Relation r = []
        \<or> PermissionWriteRequest.SubjectType r = [] \<or> PermissionWriteRequest.SubjectID r = [])))
     \<longrightarrow> trace (WritePermission ww c ctx writeReq) = [] \<and> client (WritePermission ww c ctx writeReq) = c
         \<and> ret (WritePermission ww c ctx writeReq) = None
         \<and> (\<exists>msg. error (WritePermission ww c ctx writeReq) = Some (ErrorString msg)
               \<or> error (WritePermission ww c ctx writeReq)
                   = Some (WrapError ''invalid request: '' (Some (ErrorString msg)))))
   \<and> ((deleteReq = None \<or> (\<exists>r. deleteReq = Some r \<and> (PermissionDeleteRequest.ObjectNamespace r = []
        \<or> PermissionDeleteRequest.ObjectID r = [] \<or> PermissionDeleteRequest.Relation r = []
        \<or> PermissionDeleteRequest.SubjectType r = [] \<or> PermissionDeleteRequest.SubjectID r = [])))
     \<longrightarrow> trace (DeletePermission wd c ctx deleteReq) = [] \<and> client (DeletePermission wd c ctx deleteReq) = c
         \<and> (\<exists>msg. error (DeletePermission wd c ctx deleteReq) = Some (ErrorString msg)
               \<or> error (DeletePermission wd c ctx deleteReq)
                   = Some (WrapError ''invalid request: '' (Some (ErrorString msg)))))
   \<and> ((namespace = [] \<or> objectID = [])
     \<longrightarrow> trace (ReadPermissions wr c ctx namespace objectID) = []
         \<and> client (ReadPermissions wr c ctx namespace objectID) = c
         \<and> (\<exists>msg. error (ReadPermissions wr c ctx namespace objectID) = Some (ErrorString msg)))
   \<and> ((namespace = [] \<or> objectID = [] \<or> relation = [])
     \<longrightarrow> trace (ExpandPermissions we c ctx namespace objectID relation) = []
         \<and> client (ExpandPermissions we c ctx namespace objectID relation) = c
         \<and> (\<exists>msg. error (ExpandPermissions we c ctx namespace objectID relation)
                    = Some (ErrorString msg)))
   \<and> ((subjectType = [] \<or> subjectID = [] \<or> relation = [] \<or> namespace = [])
     \<longrightarrow> trace (ListObjects wl c ctx subjectType subjectID relation namespace) = []
         \<and> client (ListObjects wl c ctx subjectType subjectID relation namespace) = c
         \<and> (\<exists>msg. error (ListObjects wl c ctx subjectType subjectID relation namespace)
                    = Some (ErrorString msg)))"
proof (intro conjI impI)
  assume "checkReq = None \<or> (\<exists>r. checkReq = Some r \<and> (PermissionCheckRequest.SubjectType r = []
        \<or> PermissionCheckRequest.SubjectID r = [] \<or> PermissionCheckRequest.Relation r = []
        \<or> PermissionCheckRequest.ObjectNamespace r = [] \<or> PermissionCheckRequest.ObjectID r = []))"
  then have "checkReq = None \<or> (\<exists>r e. checkReq = Some r \<and> PermissionCheckRequest_Validate r = Some (ErrorString e))"
    by (auto simp: PermissionCheckRequest_Validate_def)
  then show "trace (CheckPermission wc c ctx checkReq) = []" "client (CheckPermission wc c ctx checkReq) = c"
    "ret (CheckPermission wc c ctx checkReq) = None"
    "\<exists>msg. error (CheckPermission wc c ctx checkReq) = Some (ErrorString msg)
               \<or> error (CheckPermission wc c ctx checkReq)
                   = Some (WrapError ''invalid request: '' (Some (ErrorString msg)))"
    by (auto simp: CheckPermission_def)
next
  assume "writeReq = None \<or> (\<exists>r. writeReq = Some r \<and> (PermissionWriteRequest.ObjectNamespace r = []
        \<or> PermissionWriteRequest.ObjectID r = [] \<or> PermissionWriteRequest.Relation r = []
        \<or> PermissionWriteRequest.SubjectType r = [] \<or> PermissionWriteRequest.SubjectID r = []))"
  then have "writeReq = None \<or> (\<exists>r e. writeReq = Some r \<and> PermissionWriteRequest_Validate r = Some (ErrorString e))"
    by (auto simp: PermissionWriteRequest_Validate_def)
  then show "trace (WritePermission ww c ctx writeReq) = []" "client (WritePermission ww c ctx writeReq) = c"
    "ret (WritePermission ww c ctx writeReq) = None"
    "\<exists>msg. error (WritePermission ww c ctx writeReq) = Some (ErrorString msg)
               \<or> error (WritePermission ww c ctx writeReq)
                   = Some (WrapError ''invalid request: '' (Some (ErrorString msg)))"
    by (auto simp: WritePermission_def)
next
  assume "deleteReq = None \<or> (\<exists>r. deleteReq = Some r \<and> (PermissionDeleteRequest.ObjectNamespace r = []
        \<or> PermissionDeleteRequest.ObjectID r = [] \<or> PermissionDeleteRequest.Relation r = []
        \<or> PermissionDeleteRequest.SubjectType r = [] \<or> PermissionDeleteRequest.SubjectID r = []))"
  then have "deleteReq = None \<or> (\<exists>r e. deleteReq = Some r \<and> PermissionDeleteRequest_Validate r = Some (ErrorString e))"
    by (auto simp: PermissionDeleteRequest_Validate_def)
  then show "trace (DeletePermission wd c ctx deleteReq) = []" "client (DeletePermission wd c ctx deleteReq) = c"
    "\<exists>msg. error (DeletePermission wd c ctx deleteReq) = Some (ErrorString msg)
               \<or> error (DeletePermission wd c ctx deleteReq)
                   = Some (WrapError ''invalid request: '' (Some (ErrorString msg)))"
    by (auto simp: DeletePermission_def)
next
  assume "namespace = [] \<or> objectID = []"
  then show "trace (ReadPermissions wr c ctx namespace objectID) = []"
    "client (ReadPermissions wr c ctx namespace objectID) = c"
    "\<exists>msg. error (ReadPermissions wr c ctx namespace objectID) = Some (ErrorString msg)"
    by (auto simp: ReadPermissions_def)
next
  assume "namespace = [] \<or> objectID = [] \<or> relation = []"
  then show "trace (ExpandPermissions we c ctx namespace objectID relation) = []"
    "client (ExpandPermissions we c ctx namespace objectID relation) = c"
    "\<exists>msg. error (ExpandPermissions we c ctx namespace objectID relation) = Some (ErrorString msg)"
    by (auto simp: ExpandPermissions_def)
next
  assume "subjectType = [] \<or> subjectID = [] \<or> relation = [] \<or> namespace = []"
  then show "trace (ListObjects wl c ctx subjectType subjectID relation namespace) = []"
    "client (ListObjects wl c ctx subjectType subjectID relation namespace) = c"
    "\<exists>msg. error (ListObjects wl c ctx subjectType subjectID relation namespace)
                    = Some (ErrorString msg)"
    by (auto simp: ListObjects_def)
qed

text \<open>One refused call of each operation.\<close>

theorem validation_before_network_witness:
  "trace (CheckPermission okWorld exampleClient Background None) = []
   \<and> trace (WritePermission okWorld exampleClient Background
             (Some (exampleWrite\<lparr>PermissionWriteRequest.SubjectID := []\<rparr>))) = []
   \<and> trace (DeletePermission (okWorld :: (PermissionDeleteRequest, unit) world) exampleClient
             Background (Some (exampleDelete\<lparr>PermissionDeleteRequest.ObjectNamespace := []\<rparr>))) = []
   \<and> trace (ReadPermissions (okWorld :: (unit, Permission list) world) exampleClient Background
             [] ''doc1'') = []
   \<and> trace (ExpandPermissions (okWorld :: (unit, string list) world) exampleClient Background
             [] ''doc1'' ''viewer'') = []
   \<and> trace (ListObjects (okWorld :: (unit, string list) world) exampleClient Background
             ''user'' ''hanul'' ''viewer'' []) = []"
  using validation_before_network [where checkReq = None
      and writeReq = "Some (exampleWrite\<lparr>PermissionWriteRequest.SubjectID := []\<rparr>)"
      and deleteReq = "Some (exampleDelete\<lparr>PermissionDeleteRequest.ObjectNamespace := []\<rparr>)"
      and namespace = "[]" and objectID = "''doc1''" and relation = "''viewer''"
      and subjectType = "''user''" and subjectID = "''hanul''"
      and c = exampleClient and ctx = Background
      and wc = okWorld and ww = okWorld
      and wd = "okWorld :: (PermissionDeleteRequest, unit) world"
      and wr = "okWorld :: (unit, Permission list) world"
      and we = "okWorld :: (unit, string list) world"
      and wl = "okWorld :: (unit, string list) world"]
  by (simp add: exampleWrite_def exampleDelete_def)

end
